theory Spec2Isabelle
  imports Complex_Main "HOL-Library.Word"
begin

text \<open>
  A model of the generation pipeline of the asset generator: the services that ask a
  backend for an image (\<open>services/geminiService.ts\<close>) and the two handlers of the
  generator panel that drive them, for a single request and for a batch read from a table
  (\<open>components/GeneratorPanel/GeneratorPanel.tsx\<close>). Functions keep the names of the
  source. What the browser and the remote services decide is a parameter of the model;
  effects are made explicit as the list of things a caller or an observer can see.
\<close>

section \<open>JavaScript values\<close>

subsection \<open>Strings\<close>

text \<open>
  A JavaScript string is a sequence of 16-bit code units; \<open>charCodeAt\<close> reads one of them.
  \<open>lit\<close> writes an ASCII literal of the source as such a sequence.
\<close>

type_synonym jsstring = "16 word list"

definition lit :: "string \<Rightarrow> jsstring" where
  "lit s = map (\<lambda>c. of_nat (of_char c)) s"

text \<open>\<open>s.startsWith(p)\<close>.\<close>

fun startsWith :: "jsstring \<Rightarrow> jsstring \<Rightarrow> bool" where
  "startsWith s [] = True"
| "startsWith [] (p # ps) = False"
| "startsWith (c # cs) (p # ps) = (c = p \<and> startsWith cs ps)"

text \<open>\<open>s.replace(pat, rep)\<close> with a string pattern: the first occurrence only.\<close>

fun replace :: "jsstring \<Rightarrow> jsstring \<Rightarrow> jsstring \<Rightarrow> jsstring" where
  "replace [] pat rep = (if pat = [] then rep else [])"
| "replace (c # cs) pat rep =
     (if startsWith (c # cs) pat then rep @ drop (length pat) (c # cs)
      else c # replace cs pat rep)"

text \<open>\<open>parts.join(sep)\<close>.\<close>

fun join :: "jsstring \<Rightarrow> jsstring list \<Rightarrow> jsstring" where
  "join sep [] = []"
| "join sep [x] = x"
| "join sep (x # y # ys) = x @ sep @ join sep (y # ys)"

text \<open>
  A property read from an object may be \<open>undefined\<close>: \<open>None\<close>. A string is truthy when it
  is not empty; \<open>a || b\<close> yields \<open>a\<close> when \<open>a\<close> is truthy and \<open>b\<close> otherwise.
\<close>

definition truthy_str :: "jsstring option \<Rightarrow> bool" where
  "truthy_str v = (case v of None \<Rightarrow> False | Some s \<Rightarrow> s \<noteq> [])"

definition or_str :: "jsstring option \<Rightarrow> jsstring option \<Rightarrow> jsstring option" where
  "or_str a b = (if truthy_str a then a else b)"

text \<open>\<open>a || s\<close> where \<open>s\<close> is a string for certain.\<close>

definition or_else :: "jsstring option \<Rightarrow> jsstring \<Rightarrow> jsstring" where
  "or_else a s = (case a of None \<Rightarrow> s | Some x \<Rightarrow> if x \<noteq> [] then x else s)"

subsection \<open>Numbers\<close>

text \<open>
  A JavaScript number is an IEEE 754 double: \<open>NaN\<close>, an infinity (\<open>Inf True\<close> is
  \<open>+Infinity\<close>), or a finite value, kept here as the rational it denotes. Every
  arithmetic operation computes the exact result and rounds it to the nearest double,
  ties to the even significand. Negative zero is not told apart from zero.
\<close>

datatype number = NaN | Fin rat | Inf bool

definition pow2 :: "int \<Rightarrow> rat" where
  "pow2 e = (if 0 \<le> e then 2 ^ nat e else 1 / 2 ^ nat (- e))"

text \<open>The number of binary digits of a positive integer.\<close>

function bitlen :: "int \<Rightarrow> int" where
  "bitlen n = (if n \<le> 0 then 0 else 1 + bitlen (n div 2))"
  by pat_completeness auto
termination
  by (relation "measure nat") auto

declare bitlen.simps [simp del]

text \<open>The binary exponent of \<open>x \<noteq> 0\<close>: the \<open>e\<close> with \<open>2 ^ e \<le> \<bar>x\<bar> < 2 ^ (e + 1)\<close>.\<close>

definition ilog2 :: "rat \<Rightarrow> int" where
  "ilog2 x =
     (let (p, q) = quotient_of \<bar>x\<bar>;
          e = bitlen p - bitlen q
      in if pow2 e \<le> \<bar>x\<bar> then e else e - 1)"

definition round_even :: "rat \<Rightarrow> int" where
  "round_even q =
     (let n = \<lfloor>q\<rfloor>; f = q - of_int n
      in if f < 1 / 2 then n
         else if 1 / 2 < f then n + 1
         else if even n then n else n + 1)"

text \<open>
  Rounding to 53 significant bits; below \<open>2 ^ -1022\<close> the spacing stays that of the
  subnormal numbers.
\<close>

definition round_double :: "rat \<Rightarrow> rat" where
  "round_double x =
     (if x = 0 then 0
      else let u = pow2 (max (ilog2 x) (- 1022) - 52)
           in of_int (round_even (x / u)) * u)"

text \<open>A rounded value of \<open>2 ^ 1024\<close> or more overflows to an infinity.\<close>

definition to_number :: "rat \<Rightarrow> number" where
  "to_number x =
     (let r = round_double x
      in if 1024 \<le> ilog2 r then Inf (0 < r) else Fin r)"

definition num_sub :: "number \<Rightarrow> number \<Rightarrow> number" where
  "num_sub a b =
     (case (a, b) of
        (Fin x, Fin y) \<Rightarrow> to_number (x - y)
      | (Fin x, Inf t) \<Rightarrow> Inf (\<not> t)
      | (Inf s, Fin y) \<Rightarrow> Inf s
      | (Inf s, Inf t) \<Rightarrow> (if s = t then NaN else Inf s)
      | _ \<Rightarrow> NaN)"

definition num_add :: "number \<Rightarrow> number \<Rightarrow> number" where
  "num_add a b =
     (case (a, b) of
        (Fin x, Fin y) \<Rightarrow> to_number (x + y)
      | (Fin x, Inf t) \<Rightarrow> Inf t
      | (Inf s, Fin y) \<Rightarrow> Inf s
      | (Inf s, Inf t) \<Rightarrow> (if s = t then Inf s else NaN)
      | _ \<Rightarrow> NaN)"

definition num_mul :: "number \<Rightarrow> number \<Rightarrow> number" where
  "num_mul a b =
     (case (a, b) of
        (Fin x, Fin y) \<Rightarrow> to_number (x * y)
      | (Fin x, Inf t) \<Rightarrow> (if x = 0 then NaN else Inf (t = (0 < x)))
      | (Inf s, Fin y) \<Rightarrow> (if y = 0 then NaN else Inf (s = (0 < y)))
      | (Inf s, Inf t) \<Rightarrow> Inf (s = t)
      | _ \<Rightarrow> NaN)"

definition num_div :: "number \<Rightarrow> number \<Rightarrow> number" where
  "num_div a b =
     (case (a, b) of
        (Fin x, Fin y) \<Rightarrow>
          (if y = 0 then (if x = 0 then NaN else Inf (0 < x)) else to_number (x / y))
      | (Fin x, Inf t) \<Rightarrow> Fin 0
      | (Inf s, Fin y) \<Rightarrow> Inf (s = (0 \<le> y))
      | _ \<Rightarrow> NaN)"

text \<open>\<open>Math.abs\<close>, \<open><\<close>, \<open><=\<close>, \<open>Math.min\<close>, \<open>Math.max\<close>, \<open>isNaN\<close>, truthiness.\<close>

definition num_abs :: "number \<Rightarrow> number" where
  "num_abs a = (case a of NaN \<Rightarrow> NaN | Fin x \<Rightarrow> Fin \<bar>x\<bar> | Inf s \<Rightarrow> Inf True)"

definition num_less :: "number \<Rightarrow> number \<Rightarrow> bool" where
  "num_less a b =
     (case (a, b) of
        (Fin x, Fin y) \<Rightarrow> x < y
      | (Fin x, Inf t) \<Rightarrow> t
      | (Inf s, Fin y) \<Rightarrow> \<not> s
      | (Inf s, Inf t) \<Rightarrow> \<not> s \<and> t
      | _ \<Rightarrow> False)"

definition num_le :: "number \<Rightarrow> number \<Rightarrow> bool" where
  "num_le a b =
     (case (a, b) of
        (Fin x, Fin y) \<Rightarrow> x \<le> y
      | (Fin x, Inf t) \<Rightarrow> t
      | (Inf s, Fin y) \<Rightarrow> \<not> s
      | (Inf s, Inf t) \<Rightarrow> \<not> s \<or> t
      | _ \<Rightarrow> False)"

definition isNaN :: "number \<Rightarrow> bool" where
  "isNaN a = (a = NaN)"

definition num_min :: "number \<Rightarrow> number \<Rightarrow> number" where
  "num_min a b = (if isNaN a \<or> isNaN b then NaN else if num_less b a then b else a)"

definition num_max :: "number \<Rightarrow> number \<Rightarrow> number" where
  "num_max a b = (if isNaN a \<or> isNaN b then NaN else if num_less a b then b else a)"

definition truthy_num :: "number \<Rightarrow> bool" where
  "truthy_num a = (a \<noteq> NaN \<and> a \<noteq> Fin 0)"

definition or_num :: "number \<Rightarrow> number \<Rightarrow> number" where
  "or_num a b = (if truthy_num a then a else b)"

text \<open>
  \<open>parseInt(s, 10)\<close>: leading white space is skipped, a sign is read, then the longest
  run of decimal digits; without a digit the result is \<open>NaN\<close>, and so it is for
  \<open>undefined\<close>. The integer read is rounded to a double. (Beyond 20 significant digits
  an engine may round the digits first; the model rounds once.)
\<close>

definition StrWhiteSpaceChar :: "16 word \<Rightarrow> bool" where
  "StrWhiteSpaceChar c =
     (c \<in> set [0x0009, 0x000A, 0x000B, 0x000C, 0x000D, 0x0020, 0x00A0, 0x1680, 0x2000,
                0x2001, 0x2002, 0x2003, 0x2004, 0x2005, 0x2006, 0x2007, 0x2008, 0x2009,
                0x200A, 0x2028, 0x2029, 0x202F, 0x205F, 0x3000, 0xFEFF])"

definition is_digit :: "16 word \<Rightarrow> bool" where
  "is_digit c = (0x30 \<le> c \<and> c \<le> 0x39)"

definition digits_value :: "jsstring \<Rightarrow> int" where
  "digits_value ds = foldl (\<lambda>acc c. 10 * acc + (uint c - 0x30)) 0 ds"

definition parseInt :: "jsstring option \<Rightarrow> number" where
  "parseInt v =
     (case v of
        None \<Rightarrow> NaN
      | Some s \<Rightarrow>
          (let t = dropWhile StrWhiteSpaceChar s;
               negative = (t \<noteq> [] \<and> hd t = 0x2D);
               u = (if t \<noteq> [] \<and> (hd t = 0x2B \<or> hd t = 0x2D) then tl t else t);
               ds = takeWhile is_digit u
           in if ds = [] then NaN
              else to_number (of_int (if negative then - digits_value ds else digits_value ds))))"

text \<open>
  \<open>x | 0\<close> and the shift operators first reduce an integer to 32 bits, read as two's
  complement.
\<close>

definition toInt32 :: "int \<Rightarrow> int" where
  "toInt32 x = (x + 2 ^ 31) mod 2 ^ 32 - 2 ^ 31"


subsection \<open>Thrown values and promises\<close>

text \<open>
  A thrown value is an \<open>Error\<close> with its message, or something else. A promise settles as
  fulfilled with a value or rejected with a reason, as \<open>Promise.allSettled\<close> reports it.
\<close>

datatype thrown = Error jsstring | NonError

datatype 'a settled = Fulfilled 'a | Rejected thrown

subsection \<open>The browser\<close>

text \<open>
  What the browser decides: how a number prints in a template literal, whether a canvas
  gives a 2D context, and the PNG data URL of a canvas after a sequence of drawing calls.
\<close>

datatype draw =
    FillStyle jsstring
  | StrokeStyle jsstring
  | LineWidth number
  | TextAlign jsstring
  | TextBaseline jsstring
  | Font jsstring
  | FillRect number number number number
  | StrokeRect number number number number
  | FillText jsstring number number

record canvas =
  cwidth :: number
  cheight :: number
  drawn :: "draw list"

record platform =
  numberToString :: "number \<Rightarrow> jsstring"
  getContext2d :: "number \<Rightarrow> number \<Rightarrow> bool"
  toDataURL :: "canvas \<Rightarrow> jsstring"

section \<open>services/geminiService.ts\<close>

subsection \<open>getClosestAspectRatio\<close>

text \<open>The table keeps its insertion order, which is the order of \<open>Object.keys\<close>.\<close>

definition SUPPORTED_ASPECT_RATIOS :: "(jsstring \<times> number) list" where
  "SUPPORTED_ASPECT_RATIOS =
     [(lit ''1:1'', Fin 1),
      (lit ''4:3'', num_div (Fin 4) (Fin 3)),
      (lit ''3:4'', num_div (Fin 3) (Fin 4)),
      (lit ''16:9'', num_div (Fin 16) (Fin 9)),
      (lit ''9:16'', num_div (Fin 9) (Fin 16))]"

text \<open>\<open>SUPPORTED_ASPECT_RATIOS[key]\<close> in arithmetic: a missing key is \<open>undefined\<close>, hence \<open>NaN\<close>.\<close>

definition ratio_of :: "jsstring \<Rightarrow> number" where
  "ratio_of key = (case map_of SUPPORTED_ASPECT_RATIOS key of Some r \<Rightarrow> r | None \<Rightarrow> NaN)"

text \<open>\<open>xs.reduce(f)\<close> without an initial value; on an empty array it throws (\<open>None\<close>).\<close>

fun reduce :: "('a \<Rightarrow> 'a \<Rightarrow> 'a) \<Rightarrow> 'a list \<Rightarrow> 'a option" where
  "reduce f [] = None"
| "reduce f (x # xs) = Some (foldl f x xs)"

definition ratio_diff :: "number \<Rightarrow> jsstring \<Rightarrow> number" where
  "ratio_diff targetRatio key = num_abs (num_sub (ratio_of key) targetRatio)"

definition getClosestAspectRatio :: "number \<Rightarrow> number \<Rightarrow> jsstring option" where
  "getClosestAspectRatio width height =
     (if height = Fin 0 then Some (lit ''1:1'')
      else let targetRatio = num_div width height
           in reduce (\<lambda>prev curr.
                        let prevDiff = ratio_diff targetRatio prev;
                            currDiff = ratio_diff targetRatio curr
                        in if num_less currDiff prevDiff then curr else prev)
                     (map fst SUPPORTED_ASPECT_RATIOS))"

subsection \<open>stringToSeed\<close>

text \<open>
  One turn of the loop: \<open>hash = (hash << 5) - hash + char; hash |= 0\<close>. The shift yields
  a 32-bit integer; the subtraction and the addition are exact in doubles, the operands
  being below \<open>2 ^ 32\<close>.
\<close>

definition seed_step :: "int \<Rightarrow> 16 word \<Rightarrow> int" where
  "seed_step hash char = toInt32 (toInt32 (hash * 2 ^ 5) - hash + uint char)"

definition stringToSeed :: "jsstring \<Rightarrow> int" where
  "stringToSeed str = \<bar>foldl seed_step 0 str\<bar>"

subsection \<open>generatePlaceholder\<close>

definition fontFamily :: jsstring where
  "fontFamily = lit ''ui-sans-serif, system-ui, sans-serif''"

text \<open>
  The promise is created with a resolver only and always resolves. The prompt is only
  written to the console.
\<close>

definition generatePlaceholder :: "platform \<Rightarrow> jsstring \<Rightarrow> number \<Rightarrow> number \<Rightarrow> jsstring" where
  "generatePlaceholder P prompt width height =
     (let mainFontSize =
            num_max (Fin 12) (num_min (num_div width (Fin 5)) (num_div height (Fin 4)));
          detailFontSize =
            num_max (Fin 10) (num_min (num_div width (Fin 8)) (num_div height (Fin 6)));
          calls =
            (if getContext2d P width height then
               [FillStyle (lit ''#4a2525''),
                FillRect (Fin 0) (Fin 0) width height,
                StrokeStyle (lit ''#8a4a4a''),
                LineWidth (num_max (Fin 1)
                             (num_mul (num_min width height) (to_number (25 / 1000)))),
                StrokeRect (Fin 0) (Fin 0) width height,
                FillStyle (lit ''#fde8e8''),
                TextAlign (lit ''center''),
                TextBaseline (lit ''middle''),
                Font (lit ''bold '' @ numberToString P mainFontSize @ lit ''px '' @ fontFamily),
                FillText (lit ''FAILED'') (num_div width (Fin 2))
                         (num_mul height (to_number (45 / 100))),
                Font (numberToString P detailFontSize @ lit ''px '' @ fontFamily),
                FillText (numberToString P width @ lit ''x'' @ numberToString P height)
                         (num_div width (Fin 2)) (num_mul height (to_number (65 / 100)))]
             else [])
      in toDataURL P \<lparr>cwidth = width, cheight = height, drawn = calls\<rparr>)"

subsection \<open>generateWithPublicModel\<close>

text \<open>
  What one turn of the loop meets: the \<open>try\<close> block throws (while building the URL, in
  \<open>fetch\<close> or in \<open>response.blob()\<close>), or a response arrives with its status, the type of
  its blob and what the \<open>FileReader\<close> does with the blob. \<open>response.ok\<close> holds for the
  statuses 200 to 299.
\<close>

datatype read_result = LoadEnd "jsstring option" | ReadFails

record response =
  status :: nat
  blob_type :: jsstring
  blob_read :: read_result

datatype fetch_outcome = Throws thrown | Responds response

definition ok :: "response \<Rightarrow> bool" where
  "ok r = (200 \<le> status r \<and> status r \<le> 299)"

text \<open>The request of every attempt: the parts of the URL.\<close>

record request =
  req_prompt :: jsstring
  req_width :: number
  req_height :: number
  req_seed :: int

text \<open>
  A transport answers the request of each attempt. What the caller can observe of a
  call, in order: the attempts, the calls of the \<open>onRetry\<close> observer with their
  arguments (whether the call returns or throws), and the sleeps.
\<close>

type_synonym transport = "request \<Rightarrow> nat \<Rightarrow> fetch_outcome"

datatype event = Attempt nat | OnRetry nat nat | Sleep nat

text \<open>
  The observer is a function of the caller: a call of it returns or throws, and since it
  may keep a state of its own, what it does may change from one call to the next. It is
  given by the number of calls made before within this call of
  \<open>generateWithPublicModel\<close> and by its two arguments; \<open>None\<close> is a return and
  \<open>Some e\<close> the value thrown. The parameter \<open>onRetry\<close> is optional.
\<close>

type_synonym observer = "nat \<Rightarrow> nat \<Rightarrow> nat \<Rightarrow> thrown option"

text \<open>
  The loop ends by returning the promise that reads the blob, by leaving the loop (after
  the last attempt, or at the \<open>break\<close>), or with an exception that nothing catches.
\<close>

datatype loop_end = Returned "jsstring settled" | Threw thrown | LoopExit

record loop_run =
  events :: "event list"
  lastError :: "jsstring option"
  ending :: loop_end

definition MAX_RETRIES :: nat where
  "MAX_RETRIES = 3"

text \<open>
  \<open>if (attempt < MAX_RETRIES) { delay = Math.pow(2, attempt) * 1000; if (onRetry)
  onRetry(attempt, delay); await sleep(delay) }\<close>, which stands at the end of the
  \<open>try\<close> block and again in the \<open>catch\<close> block: the events, the number of calls of the
  observer made so far, and the value the observer threw, if it did; then there is no
  sleep.
\<close>

definition backoff :: "observer option \<Rightarrow> nat \<Rightarrow> nat \<Rightarrow> event list \<times> nat \<times> thrown option" where
  "backoff onRetry calls attempt =
     (if attempt < MAX_RETRIES then
        (let delay = 2 ^ attempt * 1000
         in case onRetry of
              None \<Rightarrow> ([Sleep delay], calls, None)
            | Some f \<Rightarrow>
                (case f calls attempt delay of
                   None \<Rightarrow> ([OnRetry attempt delay, Sleep delay], calls + 1, None)
                 | Some e \<Rightarrow> ([OnRetry attempt delay], calls + 1, Some e)))
      else ([], calls, None))"

definition read_blob :: "read_result \<Rightarrow> jsstring settled" where
  "read_blob r =
     (case r of
        ReadFails \<Rightarrow> Rejected (Error (lit ''Error reading image blob.''))
      | LoadEnd None \<Rightarrow> Rejected (Error (lit ''Failed to convert image blob to base64.''))
      | LoadEnd (Some res) \<Rightarrow>
          (if res \<noteq> [] then Fulfilled res
           else Rejected (Error (lit ''Failed to convert image blob to base64.''))))"


definition after :: "event list \<Rightarrow> loop_run \<Rightarrow> loop_run" where
  "after evs r = r\<lparr>events := evs @ events r\<rparr>"

definition network_error :: "thrown \<Rightarrow> jsstring" where
  "network_error e =
     (case e of Error m \<Rightarrow> m | NonError \<Rightarrow> lit ''An unknown network error occurred.'')"

definition non_image_error :: "response \<Rightarrow> jsstring" where
  "non_image_error r =
     lit ''Public model returned non-image content (type: '' @ blob_type r @ lit '').''"

definition status_error :: "platform \<Rightarrow> response \<Rightarrow> jsstring" where
  "status_error P r =
     lit ''Public model API failed with status: ''
       @ numberToString P (Fin (of_nat (status r))) @ lit ''.''"

text \<open>
  One turn of the loop either goes on to the next attempt, with the events of the turn,
  the number of calls of the observer and the new \<open>lastError\<close>, or ends the loop.
\<close>

datatype turn = Continue "event list" nat jsstring | Leave loop_run

text \<open>
  The \<open>catch\<close> block, entered after the events \<open>evs\<close> of this turn with the value
  caught. An exception of the observer in here is caught by nothing: the promise of
  \<open>generateWithPublicModel\<close> is rejected with it.
\<close>

definition catch_block :: "observer option \<Rightarrow> nat \<Rightarrow> nat \<Rightarrow> thrown \<Rightarrow> event list \<Rightarrow> turn" where
  "catch_block onRetry attempt calls error evs =
     (case backoff onRetry calls attempt of
        (bs, calls', None) \<Rightarrow> Continue (evs @ bs) calls' (network_error error)
      | (bs, calls', Some e) \<Rightarrow>
          Leave \<lparr>events = evs @ bs, lastError = Some (network_error error), ending = Threw e\<rparr>)"

text \<open>
  The end of the \<open>try\<close> block after a response that is neither returned nor terminal,
  \<open>lastError\<close> being set to \<open>err\<close>. An exception of the observer in here is caught by
  the \<open>catch\<close> block of the same turn, as an error of the network would be.
\<close>

definition try_backoff :: "observer option \<Rightarrow> nat \<Rightarrow> nat \<Rightarrow> jsstring \<Rightarrow> turn" where
  "try_backoff onRetry attempt calls err =
     (case backoff onRetry calls attempt of
        (bs, calls', None) \<Rightarrow> Continue (Attempt attempt # bs) calls' err
      | (bs, calls', Some e) \<Rightarrow> catch_block onRetry attempt calls' e (Attempt attempt # bs))"

text \<open>The body of the loop for one attempt and the answer \<open>a\<close> of the transport to it.\<close>

definition turn_of ::
  "platform \<Rightarrow> fetch_outcome \<Rightarrow> observer option \<Rightarrow> nat \<Rightarrow> nat \<Rightarrow> jsstring option \<Rightarrow> turn" where
  "turn_of P a onRetry attempt calls lastErr =
     (case a of
        Throws e \<Rightarrow> catch_block onRetry attempt calls e [Attempt attempt]
      | Responds r \<Rightarrow>
          if ok r then
            if startsWith (blob_type r) (lit ''image/'') then
              Leave \<lparr>events = [Attempt attempt], lastError = lastErr,
                     ending = Returned (read_blob (blob_read r))\<rparr>
            else try_backoff onRetry attempt calls (non_image_error r)
          else if status r < 500 \<and> status r \<noteq> 429 then
            Leave \<lparr>events = [Attempt attempt], lastError = Some (status_error P r),
                   ending = LoopExit\<rparr>
          else try_backoff onRetry attempt calls (status_error P r))"

text \<open>
  The \<open>for\<close> loop from \<open>attempt\<close> on, with the number of calls of the observer and the
  value of \<open>lastError\<close> so far.
\<close>

function retry_loop ::
  "platform \<Rightarrow> (nat \<Rightarrow> fetch_outcome) \<Rightarrow> observer option \<Rightarrow> nat \<Rightarrow> nat \<Rightarrow> jsstring option
   \<Rightarrow> loop_run" where
  "retry_loop P answer onRetry attempt calls lastErr =
     (if attempt \<le> MAX_RETRIES then
        (case turn_of P (answer attempt) onRetry attempt calls lastErr of
           Leave r \<Rightarrow> r
         | Continue evs calls' err \<Rightarrow>
             after evs (retry_loop P answer onRetry (attempt + 1) calls' (Some err)))
      else \<lparr>events = [], lastError = lastErr, ending = LoopExit\<rparr>)"
  by pat_completeness auto
termination
  by (relation "measure (\<lambda>(P, answer, onRetry, attempt, calls, lastErr). Suc MAX_RETRIES - attempt)")
     auto

declare retry_loop.simps [simp del]

text \<open>
  What a call of \<open>generateWithPublicModel\<close> does and how its promise settles. After the
  loop is left the function returns \<open>generatePlaceholder(prompt, width, height)\<close>; an
  exception that left the loop rejects the promise.
\<close>

record call =
  observed :: "event list"
  last_error :: "jsstring option"
  settles :: "jsstring settled"

definition generateWithPublicModel ::
  "platform \<Rightarrow> transport \<Rightarrow> jsstring \<Rightarrow> number \<Rightarrow> number \<Rightarrow> observer option \<Rightarrow> call" where
  "generateWithPublicModel P fetch prompt width height onRetry =
     (let req = \<lparr>req_prompt = prompt, req_width = width, req_height = height,
                 req_seed = stringToSeed prompt\<rparr>;
          r = retry_loop P (fetch req) onRetry 1 0 None
      in \<lparr>observed = events r, last_error = lastError r,
          settles = (case ending r of
                       Returned p \<Rightarrow> p
                     | Threw e \<Rightarrow> Rejected e
                     | LoopExit \<Rightarrow> Fulfilled (generatePlaceholder P prompt width height))\<rparr>)"

section \<open>components/GeneratorPanel/GeneratorPanel.tsx\<close>

subsection \<open>The types and the state of the panel\<close>

datatype AssetType = Character | NPC | Prop | Background

datatype CharacterPart = Head | Body | Arms | Legs | Weapon

datatype FacingDirection = Left | Right




datatype GenerationEngine = gemini | dalle3 | deepseek | public

record GeneratedImage =
  src :: jsstring
  prompt :: jsstring

text \<open>
  The state the two handlers read and write. \<open>numberOfVariations\<close> is a whole number: it
  starts at 1 and its only writer stores
  \<open>Math.max(1, Math.min(4, parseInt(value) || 1))\<close>.
\<close>

record panel =
  masterStyle :: jsstring
  assetType :: AssetType
  characterPart :: CharacterPart
  facingDirection :: FacingDirection
  assetWidth :: number
  assetHeight :: number
  specificPrompt :: jsstring
  numberOfVariations :: int
  engine :: GenerationEngine
  isLoading :: bool
  panelError :: "jsstring option"
  generatedImages :: "GeneratedImage list"
  geminiApiKey :: jsstring
  openAiApiKey :: jsstring
  openAiApiEndpoint :: jsstring

text \<open>
  The remote side. Calls are numbered (the variations of a single request, the rows of a
  batch), since a service may answer each call differently. The public model is reached
  through a transport; the two adapters that go through an SDK or a POST request are taken
  by how their promise settles.
\<close>

record services =
  publicTransport :: "nat \<Rightarrow> transport"
  generateImageAsset :: "nat \<Rightarrow> jsstring \<Rightarrow> number \<Rightarrow> number \<Rightarrow> jsstring \<Rightarrow> jsstring settled"
  generateWithOpenAICompatibleModel ::
    "nat \<Rightarrow> jsstring \<Rightarrow> jsstring \<Rightarrow> jsstring \<Rightarrow> jsstring \<Rightarrow> jsstring settled"

text \<open>
  \<open>generateFunc\<close> as both handlers choose it from the engine. Only the batch passes an
  \<open>onRetry\<close> observer, and only the public model takes it.
\<close>

definition generateFunc ::
  "platform \<Rightarrow> services \<Rightarrow> panel \<Rightarrow> observer option \<Rightarrow> nat \<Rightarrow> jsstring \<Rightarrow> number \<Rightarrow> number
   \<Rightarrow> call" where
  "generateFunc P S st onRetry i p w h =
     (case engine st of
        public \<Rightarrow> generateWithPublicModel P (publicTransport S i) p w h onRetry
      | dalle3 \<Rightarrow>
          \<lparr>observed = [], last_error = None,
           settles = generateWithOpenAICompatibleModel S i p (openAiApiKey st)
                       (openAiApiEndpoint st) (lit ''dall-e-3'')\<rparr>
      | deepseek \<Rightarrow>
          \<lparr>observed = [], last_error = None,
           settles = generateWithOpenAICompatibleModel S i p (openAiApiKey st)
                       (openAiApiEndpoint st) (lit ''deepseek-image-v1'')\<rparr>
      | gemini \<Rightarrow>
          \<lparr>observed = [], last_error = None,
           settles = generateImageAsset S i p w h (geminiApiKey st)\<rparr>)"

subsection \<open>handleGenerateSingle\<close>









subsection \<open>handleBatchFileUpload\<close>

text \<open>
  A row of the parsed table: its fields in header order, every value a string. What
  reading and parsing the chosen file come to is decided outside the handler.
\<close>

type_synonym row = "(jsstring \<times> jsstring) list"

record ParseError =
  message :: jsstring
  row :: number

record ParseResult =
  data :: "row list"
  errors :: "ParseError list"

datatype upload =
    NoFile
  | ReadError
  | NoContent
  | ParseFailure jsstring
  | Parsed ParseResult

text \<open>The four values of \<open>status\<close>: 'idle', 'processing', 'done' and 'error'.\<close>

datatype job_status = Idle | Processing | Done | Failed

record GeneratedFile =
  filename :: jsstring
  filedata :: jsstring

record BatchProgress =
  total :: nat
  current :: nat
  status :: job_status
  generatedFiles :: "GeneratedFile list"
  currentFileName :: "jsstring option"
  errorText :: "jsstring option"

text \<open>
  \<open>errorText\<close> is the field \<open>error\<close> and \<open>filedata\<close> the field \<open>data\<close> of the
  source; in the panel, \<open>panelError\<close> is the state \<open>error\<close> and \<open>assetWidth\<close>,
  \<open>assetHeight\<close> are \<open>width\<close> and \<open>height\<close>. The state the application starts with
  (context/AppContext.tsx):
\<close>

definition initialBatchProgress :: BatchProgress where
  "initialBatchProgress =
     \<lparr>total = 0, current = 0, status = Idle, generatedFiles = [], currentFileName = None,
      errorText = None\<rparr>"

text \<open>
  What an observer of the published state can see, in order: every state set with
  \<open>setBatchProgress\<close>, and every pause the handler takes between two of them. (States
  set with no pause or other suspension in between may reach an observer as one.) The
  job carries the state last published and the two counters of the handler.
\<close>

datatype observation = Publish BatchProgress | Wait nat

record job =
  progress :: BatchProgress
  history :: "observation list"
  failures :: nat
  firstErrorMessage :: jsstring

definition publish :: "(BatchProgress \<Rightarrow> BatchProgress) \<Rightarrow> job \<Rightarrow> job" where
  "publish f j = j\<lparr>progress := f (progress j), history := history j @ [Publish (f (progress j))]\<rparr>"

definition pause :: "nat \<Rightarrow> job \<Rightarrow> job" where
  "pause d j = j\<lparr>history := history j @ [Wait d]\<rparr>"

definition failedState :: "jsstring \<Rightarrow> BatchProgress" where
  "failedState reason =
     \<lparr>total = 0, current = 0, status = Failed, generatedFiles = [], currentFileName = None,
      errorText = Some reason\<rparr>"

text \<open>Line 149: the rows with at least one value that is not empty.\<close>

definition data_rows :: "ParseResult \<Rightarrow> row list" where
  "data_rows results = filter (\<lambda>r. list_ex (\<lambda>(k, v). v \<noteq> []) r) (data results)"

text \<open>Lines 185 to 188.\<close>

definition fileName :: "platform \<Rightarrow> nat \<Rightarrow> row \<Rightarrow> jsstring" where
  "fileName P i r =
     or_else (or_str (map_of r (lit ''nama_file'')) (map_of r (lit ''filename'')))
             (lit ''asset_'' @ numberToString P (Fin (of_nat i)))
     @ lit ''.png''"

definition widthStr :: "row \<Rightarrow> jsstring option" where
  "widthStr r = or_str (map_of r (lit ''lebar'')) (map_of r (lit ''width''))"

definition heightStr :: "row \<Rightarrow> jsstring option" where
  "heightStr r = or_str (map_of r (lit ''tinggi'')) (map_of r (lit ''height''))"

definition rowPrompt :: "row \<Rightarrow> jsstring option" where
  "rowPrompt r =
     or_str (or_str (map_of r (lit ''prompt_spesifik'')) (map_of r (lit ''specific_prompt'')))
            (map_of r (lit ''prompt''))"

text \<open>Line 204: the condition under which the row throws before any request.\<close>

definition invalidRow :: "row \<Rightarrow> bool" where
  "invalidRow r =
     (\<not> truthy_str (rowPrompt r) \<or> \<not> truthy_str (widthStr r) \<or> \<not> truthy_str (heightStr r)
      \<or> isNaN (parseInt (widthStr r)) \<or> isNaN (parseInt (heightStr r))
      \<or> num_le (parseInt (widthStr r)) (Fin 0) \<or> num_le (parseInt (heightStr r)) (Fin 0))"

text \<open>Lines 208 to 214: the parts that are not falsy, joined.\<close>

definition batchPrompt :: "platform \<Rightarrow> panel \<Rightarrow> row \<Rightarrow> jsstring" where
  "batchPrompt P st r =
     (let assetType = or_str (map_of r (lit ''tipe_aset'')) (map_of r (lit ''asset_type''));
          characterPart =
            or_str (map_of r (lit ''bagian_karakter'')) (map_of r (lit ''character_part''));
          facingDirection =
            or_str (map_of r (lit ''arah_hadap'')) (map_of r (lit ''facing_direction''));
          promptParts =
            [Some (masterStyle st), assetType, characterPart, rowPrompt r,
             Some (numberToString P (parseInt (widthStr r)) @ lit ''x''
                   @ numberToString P (parseInt (heightStr r)) @ lit ''px''),
             (if truthy_str facingDirection
              then Some (lit ''facing '' @ or_else facingDirection []) else None),
             Some (lit ''transparent background''), Some (lit ''centered'')]
      in join (lit '', '') (map (\<lambda>p. or_else p []) (filter truthy_str promptParts)))"

text \<open>
  The \<open>onRetry\<close> observer of the batch rewrites the label with \<open>setBatchProgress\<close>,
  and every call of it returns; the sleeps of the call are pauses of the job.
\<close>

definition onRetryCallback :: "platform \<Rightarrow> nat \<Rightarrow> nat \<Rightarrow> BatchProgress \<Rightarrow> BatchProgress" where
  "onRetryCallback P attempt delay prev =
     (let name = (case currentFileName prev of
                    None \<Rightarrow> lit ''undefined''
                  | Some n \<Rightarrow> replace n (lit ''Generating: '') [])
      in prev\<lparr>currentFileName :=
                Some (lit ''Rate limit hit. Retrying '' @ name @ lit '' in ''
                      @ numberToString P (num_div (Fin (of_nat delay)) (Fin 1000))
                      @ lit ''s... (Attempt '' @ numberToString P (Fin (of_nat attempt))
                      @ lit '')'')\<rparr>)"

definition batchObserver :: observer where
  "batchObserver calls attempt delay = None"

fun relay :: "platform \<Rightarrow> event list \<Rightarrow> job \<Rightarrow> job" where
  "relay P [] j = j"
| "relay P (OnRetry attempt delay # es) j = relay P es (publish (onRetryCallback P attempt delay) j)"
| "relay P (Sleep delay # es) j = relay P es (pause delay j)"
| "relay P (Attempt attempt # es) j = relay P es j"

definition appendFile :: "GeneratedFile \<Rightarrow> BatchProgress \<Rightarrow> BatchProgress" where
  "appendFile f prev = prev\<lparr>generatedFiles := generatedFiles prev @ [f]\<rparr>"

text \<open>
  The \<open>catch\<close> block, entered with the value caught and the prompt built so far (empty
  when the row was invalid). The variables \<open>width\<close> and \<open>height\<close> hold
  \<open>parseInt(widthStr, 10)\<close> and \<open>parseInt(heightStr, 10)\<close> by then: the two
  assignments open the \<open>try\<close> block and cannot throw.
\<close>

definition catchRow :: "platform \<Rightarrow> nat \<Rightarrow> row \<Rightarrow> thrown \<Rightarrow> jsstring \<Rightarrow> job \<Rightarrow> job" where
  "catchRow P i r e builtPrompt j =
     (let errorMessage = (case e of Error m \<Rightarrow> m | NonError \<Rightarrow> lit ''An unknown error occurred.'');
          j' = j\<lparr>failures := failures j + 1,
                 firstErrorMessage :=
                   (if firstErrorMessage j = []
                    then lit ''Error on '' @ fileName P i r @ lit '': '' @ errorMessage
                    else firstErrorMessage j)\<rparr>;
          placeholderWidth =
            or_num (parseInt (widthStr r)) (or_num (parseInt (widthStr r)) (Fin 64));
          placeholderHeight =
            or_num (parseInt (heightStr r)) (or_num (parseInt (heightStr r)) (Fin 64));
          placeholderUrl =
            generatePlaceholder P
              (if builtPrompt \<noteq> [] then builtPrompt else lit ''Invalid prompt data'')
              placeholderWidth placeholderHeight
      in publish (appendFile \<lparr>filename = fileName P i r, filedata = placeholderUrl\<rparr>) j')"

text \<open>One turn of the loop over the rows: row \<open>i\<close> of \<open>n\<close>.\<close>

definition processRow :: "platform \<Rightarrow> services \<Rightarrow> panel \<Rightarrow> nat \<Rightarrow> nat \<Rightarrow> row \<Rightarrow> job \<Rightarrow> job" where
  "processRow P S st n i r j =
     (let j1 = publish (\<lambda>prev. prev\<lparr>current := i,
                          currentFileName := Some (lit ''Generating: '' @ fileName P i r)\<rparr>) j;
          j2 = (if invalidRow r then
                  catchRow P i r
                    (Error (lit ''Row '' @ numberToString P (Fin (of_nat (i + 2)))
                            @ lit '': Invalid or missing data. Ensure prompt, width, and height are valid.''))
                    [] j1
                else
                  (let c = generateFunc P S st (Some batchObserver) i (batchPrompt P st r)
                             (parseInt (widthStr r)) (parseInt (heightStr r));
                       j1' = relay P (observed c) j1
                   in case settles c of
                        Fulfilled imageUrl \<Rightarrow>
                          publish (appendFile \<lparr>filename = fileName P i r, filedata = imageUrl\<rparr>) j1'
                      | Rejected e \<Rightarrow> catchRow P i r e (batchPrompt P st r) j1'))
      in if i < n - 1 then pause 2000 j2 else j2)"

fun processRows :: "platform \<Rightarrow> services \<Rightarrow> panel \<Rightarrow> nat \<Rightarrow> nat \<Rightarrow> row list \<Rightarrow> job \<Rightarrow> job" where
  "processRows P S st n i [] j = j"
| "processRows P S st n i (r # rs) j = processRows P S st n (i + 1) rs (processRow P S st n i r j)"

text \<open>Lines 240 to 244.\<close>

definition complete :: "platform \<Rightarrow> nat \<Rightarrow> job \<Rightarrow> job" where
  "complete P n j =
     (if failures j > 0 then
        publish (\<lambda>prev. prev\<lparr>status := Failed,
                   errorText := Some (numberToString P (Fin (of_nat (failures j))) @ lit '' of ''
                                      @ numberToString P (Fin (of_nat n))
                                      @ lit '' assets failed. First error: ''
                                      @ firstErrorMessage j),
                   current := n, currentFileName := Some (lit ''Completed with errors.'')\<rparr>) j
      else
        publish (\<lambda>prev. prev\<lparr>status := Done, current := n,
                   currentFileName := Some (lit ''Completed!'')\<rparr>) j)"

text \<open>
  The handler, from the state \<open>previous\<close> it was called. Without a file it returns at once.
  Otherwise it first publishes the state labelled \<open>Parsing CSV...\<close>.
\<close>

definition handleBatchFileUpload ::
  "platform \<Rightarrow> services \<Rightarrow> panel \<Rightarrow> BatchProgress \<Rightarrow> upload \<Rightarrow> job" where
  "handleBatchFileUpload P S st previous file =
     (let j0 = \<lparr>progress = previous, history = [], failures = 0, firstErrorMessage = []\<rparr>;
          j1 = publish (\<lambda>prev. \<lparr>total = 0, current = 0, status = Processing, generatedFiles = [],
                               currentFileName = Some (lit ''Parsing CSV...''),
                               errorText = None\<rparr>) j0
      in case file of
           NoFile \<Rightarrow> j0
         | ReadError \<Rightarrow> publish (\<lambda>prev. failedState (lit ''Error reading the selected file.'')) j1
         | NoContent \<Rightarrow> publish (\<lambda>prev. failedState (lit ''Could not read file content.'')) j1
         | ParseFailure m \<Rightarrow> publish (\<lambda>prev. failedState (lit ''CSV Parse Error: '' @ m)) j1
         | Parsed results \<Rightarrow>
             (case errors results of
                firstError # others \<Rightarrow>
                  publish (\<lambda>prev. failedState (lit ''CSV Parse Error: '' @ message firstError
                                           @ lit '' on row ''
                                           @ numberToString P (num_add (row firstError) (Fin 2))
                                           @ lit ''.'')) j1
              | [] \<Rightarrow>
                  (let rows = data_rows results
                   in if length rows = 0 then
                        publish (\<lambda>prev. failedState (lit ''CSV is empty or contains no valid data rows.'')) j1
                      else
                        (let j2 = publish (\<lambda>prev. prev\<lparr>total := length rows,
                                             currentFileName := Some (lit ''Starting generation...'')\<rparr>) j1
                         in complete P (length rows)
                              (processRows P S st (length rows) 0 rows j2)))))"


section \<open>Reference definitions\<close>

subsection \<open>The seed and the aspect ratio as the specification words them\<close>

text \<open>The fold \<open>hash = hash * 31 + charCode\<close>, cut to 32 signed bits, in absolute value.\<close>

definition seed_by_spec :: "jsstring \<Rightarrow> int" where
  "seed_by_spec p = \<bar>foldl (\<lambda>hash c. toInt32 (hash * 31 + uint c)) 0 p\<bar>"

text \<open>
  The member of the enumerated set whose exact ratio is nearest to the exact quotient,
  the earliest one among equals.
\<close>

definition exact_ratios :: "(jsstring \<times> rat) list" where
  "exact_ratios =
     [(lit ''1:1'', 1), (lit ''4:3'', 4 / 3), (lit ''3:4'', 3 / 4),
      (lit ''16:9'', 16 / 9), (lit ''9:16'', 9 / 16)]"

definition closest_by_spec :: "nat \<Rightarrow> nat \<Rightarrow> jsstring option" where
  "closest_by_spec w h =
     (if h = 0 then Some (lit ''1:1'')
      else let t = of_nat w / of_nat h
           in map_option fst
                (find (\<lambda>(k, r). list_all (\<lambda>(k', r'). \<bar>r - t\<bar> \<le> \<bar>r' - t\<bar>) exact_ratios)
                      exact_ratios))"

definition finite_number :: "number \<Rightarrow> bool" where
  "finite_number a = (case a of Fin x \<Rightarrow> True | _ \<Rightarrow> False)"

subsection \<open>The turns of the retry loop\<close>

text \<open>
  An attempt succeeds when the response is ok and its blob is an image; it is terminal
  when the response is not ok with a status below 500 other than 429. \<open>failure\<close> is the
  message an attempt leaves in \<open>lastError\<close> when the loop goes on. \<open>last_turn\<close> is the turn
  that ends the loop, on an attempt that succeeds or is terminal (an attempt that throws
  is neither; its case only completes the definition).
\<close>

definition succeeds :: "fetch_outcome \<Rightarrow> bool" where
  "succeeds a =
     (case a of Throws e \<Rightarrow> False
      | Responds r \<Rightarrow> ok r \<and> startsWith (blob_type r) (lit ''image/''))"

definition terminal :: "fetch_outcome \<Rightarrow> bool" where
  "terminal a =
     (case a of Throws e \<Rightarrow> False
      | Responds r \<Rightarrow> \<not> ok r \<and> response.status r < 500 \<and> response.status r \<noteq> 429)"

definition failure :: "platform \<Rightarrow> fetch_outcome \<Rightarrow> jsstring" where
  "failure P a =
     (case a of Throws e \<Rightarrow> network_error e
      | Responds r \<Rightarrow> if ok r then non_image_error r else status_error P r)"

definition last_turn :: "platform \<Rightarrow> fetch_outcome \<Rightarrow> nat \<Rightarrow> jsstring option \<Rightarrow> loop_run" where
  "last_turn P a attempt lastErr =
     (case a of
        Throws e \<Rightarrow> \<lparr>events = [Attempt attempt], lastError = lastErr, ending = LoopExit\<rparr>
      | Responds r \<Rightarrow>
          if ok r then \<lparr>events = [Attempt attempt], lastError = lastErr,
                        ending = Returned (read_blob (blob_read r))\<rparr>
          else \<lparr>events = [Attempt attempt], lastError = Some (status_error P r),
                ending = LoopExit\<rparr>)"

text \<open>The events that are calls of the observer.\<close>

fun is_OnRetry :: "event \<Rightarrow> bool" where
  "is_OnRetry (OnRetry a d) = True"
| "is_OnRetry e = False"

text \<open>
  What the caller can observe without an observer: the attempts and the sleeps. An
  observer that is absent, or none of whose calls throws.
\<close>

definition timeline_of :: "event list \<Rightarrow> event list" where
  "timeline_of evs = filter (\<lambda>e. \<not> is_OnRetry e) evs"

definition never_throws :: "observer option \<Rightarrow> bool" where
  "never_throws onRetry = (case onRetry of None \<Rightarrow> True | Some f \<Rightarrow> \<forall>n a d. f n a d = None)"

text \<open>
  The calls of the observer in one turn of the loop, for an attempt \<open>k\<close> that is not the
  last. In a turn that goes on to the next attempt there is none without an observer and
  one with an observer, or two when the first of them throws, which the \<open>catch\<close> block
  takes for an error of the network. A turn ends with an exception \<open>e\<close> when a call from
  the \<open>catch\<close> block throws it: the only call, or the second of two.
\<close>

definition thrown_by :: "observer option \<Rightarrow> thrown \<Rightarrow> bool" where
  "thrown_by onRetry e = (\<exists>f n a d. onRetry = Some f \<and> f n a d = Some e)"

definition observer_calls :: "observer option \<Rightarrow> nat \<Rightarrow> event list \<Rightarrow> bool" where
  "observer_calls onRetry k os =
     (onRetry = None \<and> os = []
      \<or> onRetry \<noteq> None \<and> os = [OnRetry k (2 ^ k * 1000)]
      \<or> \<not> never_throws onRetry \<and> os = [OnRetry k (2 ^ k * 1000), OnRetry k (2 ^ k * 1000)])"

definition thrown_calls :: "observer option \<Rightarrow> nat \<Rightarrow> event list \<Rightarrow> thrown \<Rightarrow> bool" where
  "thrown_calls onRetry k os e =
     (thrown_by onRetry e
      \<and> (os = [OnRetry k (2 ^ k * 1000)]
         \<or> os = [OnRetry k (2 ^ k * 1000), OnRetry k (2 ^ k * 1000)]))"

subsection \<open>A single request\<close>


subsection \<open>The batch job, row by row\<close>

text \<open>The states among the observations.\<close>

fun states :: "observation list \<Rightarrow> BatchProgress list" where
  "states [] = []"
| "states (Publish s # os) = s # states os"
| "states (Wait d # os) = states os"

text \<open>
  The state published while the file is read and parsed; the uploads whose row set is
  empty or cannot be parsed; the rows with their indices.
\<close>

definition parsing :: BatchProgress where
  "parsing =
     \<lparr>total = 0, current = 0, status = Processing, generatedFiles = [],
      currentFileName = Some (lit ''Parsing CSV...''), errorText = None\<rparr>"

definition invalid_upload :: "upload \<Rightarrow> bool" where
  "invalid_upload file =
     (case file of
        NoFile \<Rightarrow> False
      | ReadError \<Rightarrow> True
      | NoContent \<Rightarrow> True
      | ParseFailure m \<Rightarrow> True
      | Parsed results \<Rightarrow> errors results \<noteq> [] \<or> data_rows results = [])"

definition numbered :: "row list \<Rightarrow> (nat \<times> row) list" where
  "numbered rows = zip [0 ..< length rows] rows"

text \<open>
  What row \<open>i\<close> comes to: the call it makes when it is valid, whether it counts as a
  failure (it is invalid or its call is rejected), and the file it adds. The placeholder
  of a failed row is drawn with the prompt built so far and with
  \<open>width || parseInt(widthStr, 10) || 64\<close>, where \<open>width\<close> holds
  \<open>parseInt(widthStr, 10)\<close> already; likewise for the height.
\<close>

definition placeholderFor :: "platform \<Rightarrow> row \<Rightarrow> jsstring \<Rightarrow> jsstring" where
  "placeholderFor P r builtPrompt =
     generatePlaceholder P
       (if builtPrompt \<noteq> [] then builtPrompt else lit ''Invalid prompt data'')
       (or_num (parseInt (widthStr r)) (or_num (parseInt (widthStr r)) (Fin 64)))
       (or_num (parseInt (heightStr r)) (or_num (parseInt (heightStr r)) (Fin 64)))"

definition rowCall :: "platform \<Rightarrow> services \<Rightarrow> panel \<Rightarrow> nat \<Rightarrow> row \<Rightarrow> call" where
  "rowCall P S st i r =
     generateFunc P S st (Some batchObserver) i (batchPrompt P st r) (parseInt (widthStr r))
       (parseInt (heightStr r))"

definition rowFails :: "platform \<Rightarrow> services \<Rightarrow> panel \<Rightarrow> nat \<Rightarrow> row \<Rightarrow> bool" where
  "rowFails P S st i r =
     (invalidRow r \<or> (case settles (rowCall P S st i r) of Rejected e \<Rightarrow> True | Fulfilled u \<Rightarrow> False))"

definition rowFile :: "platform \<Rightarrow> services \<Rightarrow> panel \<Rightarrow> nat \<Rightarrow> row \<Rightarrow> GeneratedFile" where
  "rowFile P S st i r =
     \<lparr>filename = fileName P i r,
      filedata =
        (if invalidRow r then placeholderFor P r []
         else case settles (rowCall P S st i r) of
                Fulfilled imageUrl \<Rightarrow> imageUrl
              | Rejected e \<Rightarrow> placeholderFor P r (batchPrompt P st r))\<rparr>"

text \<open>
  The invariant of the published states. A state is \<open>good\<close> when it holds \<open>current\<close> or
  \<open>current + 1\<close> files and, unless it is processing, as many files as \<open>current\<close> and
  \<open>total\<close> say. A job is \<open>tidy\<close> when all its published states are good, none has a
  \<open>current\<close> above the latest, and \<open>current\<close> never went down.
\<close>

definition good :: "BatchProgress \<Rightarrow> bool" where
  "good s =
     (current s \<le> length (generatedFiles s) \<and> length (generatedFiles s) \<le> current s + 1
      \<and> (status s \<noteq> Processing \<longrightarrow> current s = total s \<and> length (generatedFiles s) = current s))"

definition tidy :: "job \<Rightarrow> bool" where
  "tidy j =
     ((\<forall>s\<in>set (states (history j)). good s \<and> current s \<le> current (progress j))
      \<and> sorted (map current (states (history j))))"

text \<open>A step that leaves the counted fields of the published state alone.\<close>

definition same_counts :: "BatchProgress \<Rightarrow> BatchProgress \<Rightarrow> bool" where
  "same_counts s t =
     (total t = total s \<and> current t = current s \<and> status t = status s
      \<and> generatedFiles t = generatedFiles s)"

text \<open>The job while row \<open>i\<close> is in hand: the state published says so and holds \<open>i\<close> files.\<close>

definition in_row :: "nat \<Rightarrow> job \<Rightarrow> bool" where
  "in_row i j =
     (tidy j \<and> current (progress j) = i \<and> length (generatedFiles (progress j)) = i
      \<and> status (progress j) = Processing)"

text \<open>The job between two rows, \<open>i\<close> of them done.\<close>

definition between_rows :: "nat \<Rightarrow> job \<Rightarrow> bool" where
  "between_rows i j =
     (tidy j \<and> good (progress j) \<and> length (generatedFiles (progress j)) = i
      \<and> current (progress j) \<le> i \<and> status (progress j) = Processing)"

section \<open>Worked examples\<close>

text \<open>
  A browser for the runs that are evaluated below. It prints a whole number in decimal,
  as JavaScript does below \<open>10 ^ 21\<close> (only whole numbers are printed in these runs),
  always grants the 2D context, and answers every canvas with the same data URL.
\<close>

function decimal :: "nat \<Rightarrow> string" where
  "decimal n =
     (if n < 10 then [char_of (48 + n)] else decimal (n div 10) @ [char_of (48 + n mod 10)])"
  by pat_completeness auto
termination
  by (relation "measure id") auto

declare decimal.simps [simp del]

definition example_browser :: platform where
  "example_browser =
     \<lparr>numberToString =
        (\<lambda>a. case a of
               NaN \<Rightarrow> lit ''NaN''
             | Inf s \<Rightarrow> lit (if s then ''Infinity'' else ''-Infinity'')
             | Fin x \<Rightarrow> (if x < 0 then lit ''-'' else []) @ lit (decimal (nat \<lfloor>\<bar>x\<bar>\<rfloor>))),
      getContext2d = (\<lambda>w h. True),
      toDataURL = (\<lambda>c. lit ''data:image/png;base64,'')\<rparr>"

text \<open>A transport that answers every attempt with the same status and no body.\<close>

definition always_status :: "nat \<Rightarrow> transport" where
  "always_status code =
     (\<lambda>req attempt. Responds \<lparr>response.status = code, blob_type = [], blob_read = LoadEnd None\<rparr>)"

text \<open>
  A transport that answers every attempt with the status 200 and a page of HTML; an
  observer all of whose calls throw, and one whose calls throw in turn: the first, the
  third and so on.
\<close>

definition always_html :: transport where
  "always_html =
     (\<lambda>req attempt. Responds \<lparr>response.status = 200, blob_type = lit ''text/html'',
                               blob_read = LoadEnd None\<rparr>)"

definition throws_always :: observer where
  "throws_always n attempt delay = Some (Error (lit ''observer failed''))"

definition throws_in_turn :: observer where
  "throws_in_turn n attempt delay = (if even n then Some (Error (lit ''observer failed'')) else None)"

definition example_panel :: panel where
  "example_panel =
     \<lparr>masterStyle = lit ''pixel art'', assetType = Character, characterPart = Head,
      facingDirection = Right, assetWidth = Fin 64, assetHeight = Fin 64,
      specificPrompt = lit ''a stoic male hero'', numberOfVariations = 1, engine = dalle3,
      isLoading = False, panelError = None, generatedImages = [],
      geminiApiKey = lit ''g-key'', openAiApiKey = lit ''o-key'',
      openAiApiEndpoint = lit ''https://api.openai.com/v1''\<rparr>"

text \<open>
  Services for the examples: the public model always answers 500, the OpenAI-compatible
  adapter always delivers, and the Gemini adapter delivers on the calls with an even
  number only (of four calls, the second and the fourth fail).
\<close>

definition example_services :: services where
  "example_services =
     \<lparr>publicTransport = (\<lambda>i. always_status 500),
      generateImageAsset =
        (\<lambda>i p w h k. if even i then Fulfilled (lit ''data:image/png;base64,AAAA'')
                      else Rejected (Error (lit ''Failed to generate image. The API returned an unexpected error.''))),
      generateWithOpenAICompatibleModel =
        (\<lambda>i p k e m. Fulfilled (lit ''data:image/png;base64,BBBB''))\<rparr>"

text \<open>
  Two rows, the second with a width of 0, and the jobs over them and over an empty table,
  with the panel above (engine DALL-E 3).
\<close>

definition two_rows :: "row list" where
  "two_rows =
     [[(lit ''nama_file'', lit ''hero''), (lit ''width'', lit ''64''), (lit ''height'', lit ''64''),
       (lit ''prompt'', lit ''a stoic hero'')],
      [(lit ''nama_file'', lit ''villain''), (lit ''width'', lit ''0''), (lit ''height'', lit ''64''),
       (lit ''prompt'', lit ''a villain'')]]"

definition example_job :: job where
  "example_job =
     handleBatchFileUpload example_browser example_services example_panel initialBatchProgress
       (Parsed \<lparr>data = two_rows, errors = []\<rparr>)"

text \<open>The job over the first row alone with the public engine, which always answers 500.\<close>

definition public_job :: job where
  "public_job =
     handleBatchFileUpload example_browser example_services (example_panel\<lparr>engine := public\<rparr>)
       initialBatchProgress (Parsed \<lparr>data = [hd two_rows], errors = []\<rparr>)"

definition empty_job :: job where
  "empty_job =
     handleBatchFileUpload example_browser example_services example_panel initialBatchProgress
       (Parsed \<lparr>data = [], errors = []\<rparr>)"

section \<open>Properties of the generation services\<close>

subsection \<open>The seed\<close>

lemma toInt32_cong: "a mod 2 ^ 32 = b mod 2 ^ 32 \<Longrightarrow> toInt32 a = toInt32 b"
  unfolding toInt32_def by (metis mod_add_cong)

lemma toInt32_mod: "toInt32 x mod 2 ^ 32 = x mod 2 ^ 32"
proof -
  have "toInt32 x mod 2 ^ 32 = ((x + 2 ^ 31) mod 2 ^ 32 - 2 ^ 31 mod 2 ^ 32) mod 2 ^ 32"
    unfolding toInt32_def by (simp add: mod_diff_right_eq)
  also have "\<dots> = (x + 2 ^ 31 - 2 ^ 31) mod 2 ^ 32"
    by (simp only: mod_diff_eq)
  finally show ?thesis by simp
qed

lemma toInt32_range: "- (2 ^ 31) \<le> toInt32 x \<and> toInt32 x < 2 ^ 31"
proof -
  have "0 \<le> (x + 2 ^ 31) mod (2 ^ 32 :: int)" "(x + 2 ^ 31) mod (2 ^ 32 :: int) < 2 ^ 32"
    by simp_all
  then show ?thesis unfolding toInt32_def by simp
qed

lemma seed_step_eq: "seed_step h c = toInt32 (h * 31 + uint c)"
proof -
  have "(toInt32 (h * 2 ^ 5) - h + uint c) mod 2 ^ 32
        = (toInt32 (h * 2 ^ 5) mod 2 ^ 32 - h + uint c) mod 2 ^ 32"
    by (metis mod_add_left_eq mod_diff_left_eq)
  also have "\<dots> = (h * 2 ^ 5 - h + uint c) mod 2 ^ 32"
    unfolding toInt32_mod by (metis mod_add_left_eq mod_diff_left_eq)
  also have "h * 2 ^ 5 - h + uint c = h * 31 + uint c" by simp
  finally show ?thesis unfolding seed_step_def by (rule toInt32_cong)
qed

lemma foldl_seed_step_range:
  "- (2 ^ 31) \<le> h \<Longrightarrow> h < 2 ^ 31 \<Longrightarrow>
   - (2 ^ 31) \<le> foldl seed_step h p \<and> foldl seed_step h p < 2 ^ 31"
proof (induction p arbitrary: h)
  case Nil then show ?case by simp
next
  case (Cons c p)
  have "- (2 ^ 31) \<le> seed_step h c" "seed_step h c < 2 ^ 31"
    using toInt32_range unfolding seed_step_def by blast+
  then show ?case using Cons.IH by simp
qed

text \<open>
  Claim C8. For every prompt the seed computed by \<open>stringToSeed\<close> is the value of the
  fold \<open>hash = hash * 31 + charCode\<close>, cut to 32 signed bits at each step, in absolute
  value; it is not negative and at most \<open>2 ^ 31\<close>. Being a function of the prompt alone,
  it is the same whenever the prompt is.
\<close>
theorem stringToSeed_fold:
  "stringToSeed p = seed_by_spec p \<and> 0 \<le> stringToSeed p \<and> stringToSeed p \<le> 2 ^ 31"
proof -
  have "foldl seed_step 0 p = foldl (\<lambda>hash c. toInt32 (hash * 31 + uint c)) 0 p"
    by (rule arg_cong [where f = "\<lambda>f. foldl f 0 p"]) (auto simp: seed_step_eq fun_eq_iff)
  moreover have "- (2 ^ 31) \<le> foldl seed_step 0 p \<and> foldl seed_step 0 p < 2 ^ 31"
    by (rule foldl_seed_step_range) simp_all
  ultimately show ?thesis unfolding stringToSeed_def seed_by_spec_def by linarith
qed

subsection \<open>The aspect ratio\<close>

lemma num_less_le_trans: "num_less a b \<Longrightarrow> num_le b c \<Longrightarrow> num_less a c"
  by (auto simp: num_less_def num_le_def split: number.splits)

lemma num_le_less_trans: "num_le a b \<Longrightarrow> num_less b c \<Longrightarrow> num_less a c"
  by (auto simp: num_less_def num_le_def split: number.splits)

lemma num_not_less_le: "a \<noteq> NaN \<Longrightarrow> b \<noteq> NaN \<Longrightarrow> \<not> num_less a b \<Longrightarrow> num_le b a"
  by (auto simp: num_less_def num_le_def split: number.splits)

lemma num_less_imp_le: "num_less a b \<Longrightarrow> num_le a b"
  by (auto simp: num_less_def num_le_def split: number.splits)

lemma foldl_pick_first_min:
  fixes d :: "'a \<Rightarrow> number"
  defines "pick \<equiv> (\<lambda>prev curr. if num_less (d curr) (d prev) then curr else prev)"
  assumes "\<forall>y\<in>set (b # xs). d y \<noteq> NaN"
  shows "\<exists>ys zs. b # xs = ys @ foldl pick b xs # zs
            \<and> (\<forall>y\<in>set ys. num_less (d (foldl pick b xs)) (d y))
            \<and> (\<forall>z\<in>set zs. num_le (d (foldl pick b xs)) (d z))"
  using assms(2)
proof (induction xs arbitrary: b)
  case Nil
  have "[b] = [] @ foldl pick b [] # [] \<and> (\<forall>y\<in>set []. num_less (d (foldl pick b [])) (d y))
        \<and> (\<forall>z\<in>set []. num_le (d (foldl pick b [])) (d z))" by simp
  then show ?case by blast
next
  case (Cons x xs)
  show ?case
  proof (cases "num_less (d x) (d b)")
    case True
    then have step: "foldl pick b (x # xs) = foldl pick x xs" by (simp add: pick_def)
    from Cons.prems have "\<forall>y\<in>set (x # xs). d y \<noteq> NaN" by simp
    from Cons.IH [OF this] obtain ys zs where
      split: "x # xs = ys @ foldl pick x xs # zs"
      and before: "\<forall>y\<in>set ys. num_less (d (foldl pick x xs)) (d y)"
      and after: "\<forall>z\<in>set zs. num_le (d (foldl pick x xs)) (d z)" by blast
    have "num_le (d (foldl pick x xs)) (d x)"
    proof (cases ys)
      case Nil
      with split have "foldl pick x xs = x" by (metis append_Nil list.inject)
      moreover have "d x \<noteq> NaN" using Cons.prems by simp
      ultimately show ?thesis by (auto simp: num_le_def split: number.splits)
    next
      case (Cons y ys')
      with split have "x \<in> set ys" by simp
      with before show ?thesis by (blast intro: num_less_imp_le)
    qed
    then have "num_less (d (foldl pick x xs)) (d b)" using True by (rule num_le_less_trans)
    with split before after have
      "b # x # xs = (b # ys) @ foldl pick x xs # zs
       \<and> (\<forall>y\<in>set (b # ys). num_less (d (foldl pick x xs)) (d y))
       \<and> (\<forall>z\<in>set zs. num_le (d (foldl pick x xs)) (d z))" by simp
    then show ?thesis unfolding step by blast
  next
    case False
    then have step: "foldl pick b (x # xs) = foldl pick b xs" by (simp add: pick_def)
    from Cons.prems have ok: "d b \<noteq> NaN" "d x \<noteq> NaN" by simp_all
    then have bx: "num_le (d b) (d x)" using False by (blast intro: num_not_less_le)
    from Cons.prems have "\<forall>y\<in>set (b # xs). d y \<noteq> NaN" by simp
    from Cons.IH [OF this] obtain ys zs where
      split: "b # xs = ys @ foldl pick b xs # zs"
      and before: "\<forall>y\<in>set ys. num_less (d (foldl pick b xs)) (d y)"
      and after: "\<forall>z\<in>set zs. num_le (d (foldl pick b xs)) (d z)" by blast
    show ?thesis
    proof (cases ys)
      case Nil
      with split have r: "foldl pick b xs = b" and zs: "zs = xs"
        by (metis append_Nil list.inject)+
      have "b # x # xs = [] @ foldl pick b xs # (x # zs)
            \<and> (\<forall>y\<in>set []. num_less (d (foldl pick b xs)) (d y))
            \<and> (\<forall>z\<in>set (x # zs). num_le (d (foldl pick b xs)) (d z))"
        using r zs bx after by simp
      then show ?thesis unfolding step by blast
    next
      case (Cons y ys')
      with split have y: "y = b" and xs: "xs = ys' @ foldl pick b xs # zs"
        by (metis append_Cons list.inject)+
      have "num_less (d (foldl pick b xs)) (d b)" using before Cons y by simp
      then have "num_less (d (foldl pick b xs)) (d x)" using bx by (rule num_less_le_trans)
      with before after Cons y xs have
        "b # x # xs = (b # x # ys') @ foldl pick b xs # zs
         \<and> (\<forall>y\<in>set (b # x # ys'). num_less (d (foldl pick b xs)) (d y))
         \<and> (\<forall>z\<in>set zs. num_le (d (foldl pick b xs)) (d z))" by simp
      then show ?thesis unfolding step by blast
    qed
  qed
qed

lemma ratios_finite: "list_all (\<lambda>k. finite_number (ratio_of k)) (map fst SUPPORTED_ASPECT_RATIOS)"
  by code_simp

lemma to_number_not_NaN: "to_number x \<noteq> NaN"
  by (simp add: to_number_def Let_def)

lemma ratio_diff_not_NaN:
  assumes "finite_number (ratio_of k)" and "t \<noteq> NaN"
  shows "ratio_diff t k \<noteq> NaN"
  using assms
  by (auto simp: ratio_diff_def num_abs_def num_sub_def finite_number_def to_number_not_NaN
           split: number.splits)

text \<open>
  Claim C5, as amended. When the height is 0 the answer is \<open>1:1\<close>. Otherwise, for whole
  numbers \<open>w\<close> and \<open>h\<close>, the answer is the earliest member of the table whose distance
  to \<open>w / h\<close>, as computed in double arithmetic (the quotient, the difference and
  the table's ratios all rounded), is least: every earlier member is strictly farther and
  every later member is at least as far.
\<close>
theorem closest_ratio_computed:
  fixes w h :: nat
  shows "getClosestAspectRatio (Fin (of_nat w)) (Fin 0) = Some (lit ''1:1'')
    \<and> (h \<noteq> 0 \<longrightarrow>
         (\<exists>before k after.
            getClosestAspectRatio (Fin (of_nat w)) (Fin (of_nat h)) = Some k
            \<and> map fst SUPPORTED_ASPECT_RATIOS = before @ k # after
            \<and> (\<forall>b\<in>set before.
                  num_less (ratio_diff (num_div (Fin (of_nat w)) (Fin (of_nat h))) k)
                           (ratio_diff (num_div (Fin (of_nat w)) (Fin (of_nat h))) b))
            \<and> (\<forall>a\<in>set after.
                  num_le (ratio_diff (num_div (Fin (of_nat w)) (Fin (of_nat h))) k)
                         (ratio_diff (num_div (Fin (of_nat w)) (Fin (of_nat h))) a))))"
proof (intro conjI impI)
  show "getClosestAspectRatio (Fin (of_nat w)) (Fin 0) = Some (lit ''1:1'')"
    by (simp add: getClosestAspectRatio_def)
next
  assume h: "h \<noteq> 0"
  define t where "t = num_div (Fin (of_nat w)) (Fin (of_nat h))"
  define pick where
    "pick = (\<lambda>prev curr. if num_less (ratio_diff t curr) (ratio_diff t prev) then curr else prev)"
  obtain k0 ks where keys: "map fst SUPPORTED_ASPECT_RATIOS = k0 # ks"
    by (simp add: SUPPORTED_ASPECT_RATIOS_def)
  have "t \<noteq> NaN"
    using h by (simp add: t_def num_div_def to_number_not_NaN)
  then have "\<forall>y\<in>set (k0 # ks). ratio_diff t y \<noteq> NaN"
    using ratios_finite unfolding keys list_all_iff by (simp add: ratio_diff_not_NaN)
  from foldl_pick_first_min [OF this] obtain ys zs where
    "k0 # ks = ys @ foldl pick k0 ks # zs"
    "\<forall>y\<in>set ys. num_less (ratio_diff t (foldl pick k0 ks)) (ratio_diff t y)"
    "\<forall>z\<in>set zs. num_le (ratio_diff t (foldl pick k0 ks)) (ratio_diff t z)"
    unfolding pick_def by blast
  moreover have "getClosestAspectRatio (Fin (of_nat w)) (Fin (of_nat h)) = Some (foldl pick k0 ks)"
    using h by (simp add: getClosestAspectRatio_def keys Let_def pick_def t_def)
  ultimately show "\<exists>before k after.
            getClosestAspectRatio (Fin (of_nat w)) (Fin (of_nat h)) = Some k
            \<and> map fst SUPPORTED_ASPECT_RATIOS = before @ k # after
            \<and> (\<forall>b\<in>set before.
                  num_less (ratio_diff (num_div (Fin (of_nat w)) (Fin (of_nat h))) k)
                           (ratio_diff (num_div (Fin (of_nat w)) (Fin (of_nat h))) b))
            \<and> (\<forall>a\<in>set after.
                  num_le (ratio_diff (num_div (Fin (of_nat w)) (Fin (of_nat h))) k)
                         (ratio_diff (num_div (Fin (of_nat w)) (Fin (of_nat h))) a))"
    unfolding keys t_def by blast
qed

text \<open>
  Claim C5 as stated fails at 7 by 6. The exact quotient \<open>7 / 6\<close> lies as far from 1 as
  from \<open>4 / 3\<close>, so the earlier member \<open>1:1\<close> should win; in doubles \<open>7 / 6\<close> is rounded
  up and \<open>4 / 3\<close> down, and the function answers \<open>4:3\<close>.
\<close>
theorem closest_ratio_tie_counterexample:
  "getClosestAspectRatio (Fin 7) (Fin 6) = Some (lit ''4:3'')
   \<and> closest_by_spec 7 6 = Some (lit ''1:1'')"
proof
  show "getClosestAspectRatio (Fin 7) (Fin 6) = Some (lit ''4:3'')" by code_simp
  show "closest_by_spec 7 6 = Some (lit ''1:1'')" by code_simp
qed

text \<open>The amended claim C5 at 7 by 6.\<close>
theorem closest_ratio_computed_witness:
  "(6::nat) \<noteq> 0
   \<and> (\<exists>before k after.
        getClosestAspectRatio (Fin 7) (Fin 6) = Some k
        \<and> map fst SUPPORTED_ASPECT_RATIOS = before @ k # after
        \<and> (\<forall>b\<in>set before. num_less (ratio_diff (num_div (Fin 7) (Fin 6)) k)
                                     (ratio_diff (num_div (Fin 7) (Fin 6)) b))
        \<and> (\<forall>a\<in>set after. num_le (ratio_diff (num_div (Fin 7) (Fin 6)) k)
                                  (ratio_diff (num_div (Fin 7) (Fin 6)) a)))"
  using closest_ratio_computed [of 7 6] by simp

subsection \<open>The retry loop\<close>

lemma after_simps:
  "events (after evs r) = evs @ events r"
  "lastError (after evs r) = lastError r"
  "ending (after evs r) = ending r"
  by (simp_all add: after_def)

lemma events_last_turn: "events (last_turn P a attempt l) = [Attempt attempt]"
  by (simp add: last_turn_def split: fetch_outcome.splits)

lemma last_turn_settle:
  assumes "succeeds a \<or> terminal a"
  shows "ending (last_turn P a k l)
         = (case a of Responds r \<Rightarrow> if succeeds a then Returned (read_blob (blob_read r)) else LoopExit
            | Throws e \<Rightarrow> LoopExit)"
    and "lastError (last_turn P a k l) = (if succeeds a then l else Some (failure P a))"
  using assms
  by (auto simp: last_turn_def succeeds_def terminal_def failure_def split: fetch_outcome.splits)

lemma backoff_simps:
  "backoff onRetry c 3 = ([], c, None)"
  "k < 3 \<Longrightarrow> backoff None c k = ([Sleep (2 ^ k * 1000)], c, None)"
  "k < 3 \<Longrightarrow> backoff (Some f) c k =
     (case f c k (2 ^ k * 1000) of
        None \<Rightarrow> ([OnRetry k (2 ^ k * 1000), Sleep (2 ^ k * 1000)], c + 1, None)
      | Some e \<Rightarrow> ([OnRetry k (2 ^ k * 1000)], c + 1, Some e))"
  by (simp_all add: backoff_def MAX_RETRIES_def Let_def)

text \<open>The shapes of one turn.\<close>

lemma turn_of_leave:
  assumes "succeeds a \<or> terminal a"
  shows "turn_of P a onRetry k c l = Leave (last_turn P a k l)"
  using assms
  by (auto simp: turn_of_def succeeds_def terminal_def last_turn_def split: fetch_outcome.splits)

lemma turn_of_third:
  assumes "\<not> succeeds a" "\<not> terminal a"
  shows "turn_of P a onRetry 3 c l = Continue [Attempt 3] c (failure P a)"
  using assms
  by (auto simp: turn_of_def succeeds_def terminal_def failure_def try_backoff_def catch_block_def
        backoff_simps split: fetch_outcome.splits)

lemma turn_of_unobserved:
  assumes "\<not> succeeds a" "\<not> terminal a" "k < 3"
  shows "turn_of P a None k c l = Continue [Attempt k, Sleep (2 ^ k * 1000)] c (failure P a)"
  using assms
  by (auto simp: turn_of_def succeeds_def terminal_def failure_def try_backoff_def catch_block_def
        backoff_simps split: fetch_outcome.splits)

lemma turn_of_observed:
  fixes k :: nat
  defines "d \<equiv> 2 ^ k * 1000"
  assumes "\<not> succeeds a" "\<not> terminal a" "k < 3"
  shows "(f c k d = None
            \<and> turn_of P a (Some f) k c l
                = Continue [Attempt k, OnRetry k d, Sleep d] (c + 1) (failure P a))
       \<or> (\<exists>e. f c k d = Some e \<and> f (c + 1) k d = None
            \<and> turn_of P a (Some f) k c l
                = Continue [Attempt k, OnRetry k d, OnRetry k d, Sleep d] (c + 2) (network_error e))
       \<or> (\<exists>e err. f c k d = Some e
            \<and> turn_of P a (Some f) k c l
                = Leave \<lparr>events = [Attempt k, OnRetry k d], lastError = Some err,
                         ending = Threw e\<rparr>)
       \<or> (\<exists>e e' err. f c k d = Some e' \<and> f (c + 1) k d = Some e
            \<and> turn_of P a (Some f) k c l
                = Leave \<lparr>events = [Attempt k, OnRetry k d, OnRetry k d], lastError = Some err,
                         ending = Threw e\<rparr>)"
  using assms(2-)
  unfolding d_def
  by (cases a; cases "f c k (2 ^ k * 1000)"; cases "f (c + 1) k (2 ^ k * 1000)")
     (auto simp: turn_of_def succeeds_def terminal_def failure_def try_backoff_def
        catch_block_def backoff_simps)


lemma never_throws_simps:
  "never_throws None"
  "never_throws (Some f) \<Longrightarrow> f n a d = None"
  "thrown_by onRetry e \<Longrightarrow> \<not> never_throws onRetry"
  "thrown_by onRetry e \<Longrightarrow> onRetry \<noteq> None"
  by (auto simp: never_throws_def thrown_by_def)

lemma retry_loop_4:
  "retry_loop P answer onRetry 4 c l = \<lparr>events = [], lastError = l, ending = LoopExit\<rparr>"
  by (subst retry_loop.simps) (simp add: MAX_RETRIES_def)

lemma retry_loop_3:
  "retry_loop P answer onRetry 3 c l =
     (if succeeds (answer 3) \<or> terminal (answer 3) then last_turn P (answer 3) 3 l
      else \<lparr>events = [Attempt 3], lastError = Some (failure P (answer 3)), ending = LoopExit\<rparr>)"
proof (cases "succeeds (answer 3) \<or> terminal (answer 3)")
  case True
  then show ?thesis
    by (subst retry_loop.simps) (simp add: MAX_RETRIES_def turn_of_leave)
next
  case False
  then show ?thesis
    by (subst retry_loop.simps) (simp add: MAX_RETRIES_def turn_of_third retry_loop_4 after_def)
qed

text \<open>One turn before the last, from any state of the loop.\<close>

lemma retry_loop_turn [consumes 1, case_names leave threw go]:
  fixes k :: nat
  assumes k: "k < 3"
  obtains
    (leave) "succeeds (answer k) \<or> terminal (answer k)"
      "retry_loop P answer onRetry k c l = last_turn P (answer k) k l"
  | (threw) os err e where "\<not> succeeds (answer k)" "\<not> terminal (answer k)"
      "thrown_calls onRetry k os e"
      "retry_loop P answer onRetry k c l
         = \<lparr>events = Attempt k # os, lastError = Some err, ending = Threw e\<rparr>"
  | (go) os c' err where "\<not> succeeds (answer k)" "\<not> terminal (answer k)"
      "observer_calls onRetry k os"
      "never_throws onRetry \<longrightarrow> err = failure P (answer k)"
      "retry_loop P answer onRetry k c l
         = after (Attempt k # os @ [Sleep (2 ^ k * 1000)])
             (retry_loop P answer onRetry (k + 1) c' (Some err))"
proof (cases "succeeds (answer k) \<or> terminal (answer k)")
  case True
  have "retry_loop P answer onRetry k c l = last_turn P (answer k) k l"
    using k True by (subst retry_loop.simps) (simp add: MAX_RETRIES_def turn_of_leave)
  with True show ?thesis by (rule leave)
next
  case False
  then have n: "\<not> succeeds (answer k)" "\<not> terminal (answer k)" by simp_all
  have step: "retry_loop P answer onRetry k c l =
      (case turn_of P (answer k) onRetry k c l of
         Leave r \<Rightarrow> r
       | Continue evs c' err \<Rightarrow>
           after evs (retry_loop P answer onRetry (k + 1) c' (Some err)))"
    using k by (subst retry_loop.simps) (simp add: MAX_RETRIES_def)
  show ?thesis
  proof (cases onRetry)
    case None
    have "retry_loop P answer onRetry k c l
         = after (Attempt k # [] @ [Sleep (2 ^ k * 1000)])
             (retry_loop P answer onRetry (k + 1) c (Some (failure P (answer k))))"
      unfolding step by (simp add: None turn_of_unobserved [OF n k])
    moreover have "observer_calls onRetry k []" by (simp add: observer_calls_def None)
    ultimately show ?thesis using go n by blast
  next
    case (Some f)
    from turn_of_observed [OF n k, of f c P l]
    consider
      (a) "f c k (2 ^ k * 1000) = None"
        "turn_of P (answer k) (Some f) k c l
           = Continue [Attempt k, OnRetry k (2 ^ k * 1000), Sleep (2 ^ k * 1000)] (c + 1)
               (failure P (answer k))"
    | (b) e where "f c k (2 ^ k * 1000) = Some e"
        "turn_of P (answer k) (Some f) k c l
           = Continue [Attempt k, OnRetry k (2 ^ k * 1000), OnRetry k (2 ^ k * 1000),
                       Sleep (2 ^ k * 1000)] (c + 2) (network_error e)"
    | (c) e err where "f c k (2 ^ k * 1000) = Some e"
        "turn_of P (answer k) (Some f) k c l
           = Leave \<lparr>events = [Attempt k, OnRetry k (2 ^ k * 1000)], lastError = Some err,
                    ending = Threw e\<rparr>"
    | (d) e err where "f (c + 1) k (2 ^ k * 1000) = Some e"
        "turn_of P (answer k) (Some f) k c l
           = Leave \<lparr>events = [Attempt k, OnRetry k (2 ^ k * 1000), OnRetry k (2 ^ k * 1000)],
                    lastError = Some err, ending = Threw e\<rparr>"
      by (elim disjE exE conjE) blast+
    then show ?thesis
    proof cases
      case a
      have "retry_loop P answer onRetry k c l
         = after (Attempt k # [OnRetry k (2 ^ k * 1000)] @ [Sleep (2 ^ k * 1000)])
             (retry_loop P answer onRetry (k + 1) (c + 1) (Some (failure P (answer k))))"
        unfolding step by (simp add: Some a)
      moreover have "observer_calls onRetry k [OnRetry k (2 ^ k * 1000)]"
        by (simp add: observer_calls_def Some)
      ultimately show ?thesis using go n by blast
    next
      case b
      have "retry_loop P answer onRetry k c l
         = after (Attempt k # [OnRetry k (2 ^ k * 1000), OnRetry k (2 ^ k * 1000)]
                  @ [Sleep (2 ^ k * 1000)])
             (retry_loop P answer onRetry (k + 1) (c + 2) (Some (network_error e)))"
        unfolding step by (simp add: Some b)
      moreover have nt: "\<not> never_throws onRetry"
        using b(1) by (auto simp: never_throws_def Some)
      then have "observer_calls onRetry k [OnRetry k (2 ^ k * 1000), OnRetry k (2 ^ k * 1000)]"
        by (simp add: observer_calls_def)
      ultimately show ?thesis using go [of "[OnRetry k (2 ^ k * 1000), OnRetry k (2 ^ k * 1000)]"
            "network_error e" "c + 2"] n nt by blast
    next
      case c
      have "retry_loop P answer onRetry k c l
         = \<lparr>events = Attempt k # [OnRetry k (2 ^ k * 1000)], lastError = Some err,
            ending = Threw e\<rparr>"
        unfolding step by (simp add: Some c)
      moreover have "thrown_calls onRetry k [OnRetry k (2 ^ k * 1000)] e"
        using c(1) by (auto simp: thrown_calls_def thrown_by_def Some)
      ultimately show ?thesis using threw n by blast
    next
      case d
      have "retry_loop P answer onRetry k c l
         = \<lparr>events = Attempt k # [OnRetry k (2 ^ k * 1000), OnRetry k (2 ^ k * 1000)],
            lastError = Some err, ending = Threw e\<rparr>"
        unfolding step by (simp add: Some d)
      moreover have "thrown_calls onRetry k [OnRetry k (2 ^ k * 1000), OnRetry k (2 ^ k * 1000)] e"
        using d(1) by (auto simp: thrown_calls_def thrown_by_def Some)
      ultimately show ?thesis using threw n by blast
    qed
  qed
qed


lemma after_after: "after evs (after evs' r) = after (evs @ evs') r"
  by (simp add: after_def)

lemma after_run:
  "after evs \<lparr>events = evs', lastError = l, ending = x\<rparr>
   = \<lparr>events = evs @ evs', lastError = l, ending = x\<rparr>"
  by (simp add: after_def)

text \<open>The courses a call can take, by the turn that ends the loop.\<close>

lemma retry_loop_course:
  fixes P answer onRetry
  defines "r \<equiv> retry_loop P answer onRetry 1 0 None"
  obtains
    (first) "succeeds (answer 1) \<or> terminal (answer 1)"
      "r = last_turn P (answer 1) 1 None"
  | (threw1) os err e where "\<not> succeeds (answer 1)" "\<not> terminal (answer 1)"
      "thrown_calls onRetry 1 os e"
      "r = \<lparr>events = Attempt 1 # os, lastError = Some err, ending = Threw e\<rparr>"
  | (second) os1 err where "\<not> succeeds (answer 1)" "\<not> terminal (answer 1)"
      "succeeds (answer 2) \<or> terminal (answer 2)"
      "observer_calls onRetry 1 os1"
      "r = after (Attempt 1 # os1 @ [Sleep 2000]) (last_turn P (answer 2) 2 (Some err))"
  | (threw2) os1 os2 err e where "\<not> succeeds (answer 1)" "\<not> terminal (answer 1)"
      "\<not> succeeds (answer 2)" "\<not> terminal (answer 2)"
      "observer_calls onRetry 1 os1" "thrown_calls onRetry 2 os2 e"
      "r = \<lparr>events = Attempt 1 # os1 @ Sleep 2000 # Attempt 2 # os2, lastError = Some err,
             ending = Threw e\<rparr>"
  | (third) os1 os2 err where "\<not> succeeds (answer 1)" "\<not> terminal (answer 1)"
      "\<not> succeeds (answer 2)" "\<not> terminal (answer 2)"
      "succeeds (answer 3) \<or> terminal (answer 3)"
      "observer_calls onRetry 1 os1" "observer_calls onRetry 2 os2"
      "r = after (Attempt 1 # os1 @ Sleep 2000 # Attempt 2 # os2 @ [Sleep 4000])
             (last_turn P (answer 3) 3 (Some err))"
  | (exhausted) os1 os2 where "\<not> succeeds (answer 1)" "\<not> terminal (answer 1)"
      "\<not> succeeds (answer 2)" "\<not> terminal (answer 2)"
      "\<not> succeeds (answer 3)" "\<not> terminal (answer 3)"
      "observer_calls onRetry 1 os1" "observer_calls onRetry 2 os2"
      "r = \<lparr>events = Attempt 1 # os1 @ Sleep 2000 # Attempt 2 # os2 @ [Sleep 4000, Attempt 3],
             lastError = Some (failure P (answer 3)), ending = LoopExit\<rparr>"
proof -
  have one: "(1::nat) < 3" and two: "(2::nat) < 3" by simp_all
  from one show ?thesis
  proof (cases rule: retry_loop_turn [of 1 answer P onRetry 0 None])
    case leave
    then show ?thesis using first unfolding r_def by blast
  next
    case (threw os err e)
    then show ?thesis using threw1 unfolding r_def by blast
  next
    case g1: (go os1 c1 err1)
    have r1: "r = after (Attempt 1 # os1 @ [Sleep 2000])
                    (retry_loop P answer onRetry 2 c1 (Some err1))"
      unfolding r_def g1(5) by (simp del: One_nat_def)
    from two show ?thesis
    proof (cases rule: retry_loop_turn [of 2 answer P onRetry c1 "Some err1"])
      case leave
      have "r = after (Attempt 1 # os1 @ [Sleep 2000]) (last_turn P (answer 2) 2 (Some err1))"
        unfolding r1 leave(2) by (rule refl)
      then show ?thesis using second g1(1-3) leave(1) by blast
    next
      case (threw os2 err e)
      have "r = \<lparr>events = Attempt 1 # os1 @ Sleep 2000 # Attempt 2 # os2, lastError = Some err,
                  ending = Threw e\<rparr>"
        unfolding r1 threw(4) by (simp add: after_run)
      then show ?thesis using threw2 g1(1-3) threw(1-3) by blast
    next
      case g2: (go os2 c2 err2)
      have r2: "r = after (Attempt 1 # os1 @ Sleep 2000 # Attempt 2 # os2 @ [Sleep 4000])
                      (retry_loop P answer onRetry 3 c2 (Some err2))"
        unfolding r1 g2(5) by (simp add: after_after)
      show ?thesis
      proof (cases "succeeds (answer 3) \<or> terminal (answer 3)")
        case True
        have "r = after (Attempt 1 # os1 @ Sleep 2000 # Attempt 2 # os2 @ [Sleep 4000])
                    (last_turn P (answer 3) 3 (Some err2))"
          unfolding r2 retry_loop_3 using True by simp
        then show ?thesis using third g1(1-3) g2(1-3) True by blast
      next
        case False
        have "r = \<lparr>events = Attempt 1 # os1 @ Sleep 2000 # Attempt 2 # os2
                              @ [Sleep 4000, Attempt 3],
                    lastError = Some (failure P (answer 3)), ending = LoopExit\<rparr>"
          unfolding r2 retry_loop_3 using False by (simp add: after_run)
        then show ?thesis using exhausted g1(1-3) g2(1-3) False by blast
      qed
    qed
  qed
qed


lemma observer_calls_quiet:
  assumes "observer_calls onRetry k os" "never_throws onRetry"
  shows "os = (if onRetry = None then [] else [OnRetry k (2 ^ k * 1000)])"
  using assms by (auto simp: observer_calls_def)

lemma observer_calls_events:
  assumes "observer_calls onRetry k os"
  shows "os = [] \<or> onRetry \<noteq> None \<and> os = [OnRetry k (2 ^ k * 1000)]
         \<or> onRetry \<noteq> None \<and> \<not> never_throws onRetry
           \<and> os = [OnRetry k (2 ^ k * 1000), OnRetry k (2 ^ k * 1000)]"
  using assms by (auto simp: observer_calls_def never_throws_def)

lemma thrown_calls_events:
  assumes "thrown_calls onRetry k os e"
  shows "thrown_by onRetry e \<and> onRetry \<noteq> None \<and> \<not> never_throws onRetry
         \<and> (os = [OnRetry k (2 ^ k * 1000)]
            \<or> os = [OnRetry k (2 ^ k * 1000), OnRetry k (2 ^ k * 1000)])"
  using assms by (auto simp: thrown_calls_def thrown_by_def never_throws_def)

lemma ending_last_turn:
  assumes "succeeds a \<or> terminal a"
  shows "succeeds a \<and> (\<exists>resp. a = Responds resp
                          \<and> ending (last_turn P a k l) = Returned (read_blob (blob_read resp)))
         \<or> \<not> succeeds a \<and> terminal a \<and> ending (last_turn P a k l) = LoopExit"
  using assms
  by (auto simp: last_turn_def succeeds_def terminal_def split: fetch_outcome.splits)

text \<open>How the loop ends, by the attempts that were made.\<close>

lemma retry_loop_end:
  fixes P answer onRetry
  defines "r \<equiv> retry_loop P answer onRetry 1 0 None"
  shows "(\<forall>k. Attempt k \<in> set (events r) \<and> succeeds (answer k) \<longrightarrow>
            (\<exists>resp. answer k = Responds resp
                    \<and> ending r = Returned (read_blob (blob_read resp))))
       \<and> (ending r = LoopExit
          \<or> (\<exists>k resp. Attempt k \<in> set (events r) \<and> succeeds (answer k)
                \<and> answer k = Responds resp
                \<and> ending r = Returned (read_blob (blob_read resp)))
          \<or> (\<exists>e. ending r = Threw e \<and> thrown_by onRetry e \<and> is_OnRetry (last (events r))))"
proof (cases rule: retry_loop_course [of answer P onRetry])
  case first
  from ending_last_turn [OF first(1), of P 1 None] show ?thesis
    unfolding r_def first(2) by (auto simp: events_last_turn)
next
  case (threw1 os err e)
  from thrown_calls_events [OF threw1(3)] threw1(1) show ?thesis
    unfolding r_def threw1(4) by auto
next
  case (second os1 err)
  from ending_last_turn [OF second(3), of P 2 "Some err"]
    observer_calls_events [OF second(4)] second(1)
  show ?thesis
    unfolding r_def second(5) by (auto simp: events_last_turn after_simps)
next
  case (threw2 os1 os2 err e)
  from thrown_calls_events [OF threw2(6)] observer_calls_events [OF threw2(5)] threw2(1,3)
  show ?thesis
    unfolding r_def threw2(7) by auto
next
  case (third os1 os2 err)
  from ending_last_turn [OF third(5), of P 3 "Some err"]
    observer_calls_events [OF third(6)] observer_calls_events [OF third(7)] third(1,3)
  show ?thesis
    unfolding r_def third(8) by (auto simp: events_last_turn after_simps)
next
  case (exhausted os1 os2)
  from observer_calls_events [OF exhausted(7)] observer_calls_events [OF exhausted(8)]
    exhausted(1,3,5)
  show ?thesis
    unfolding r_def exhausted(9) by auto
qed


lemma generateWithPublicModel_settles:
  fixes P fetch q width height onRetry
  defines "c \<equiv> generateWithPublicModel P fetch q width height onRetry"
  defines "answer \<equiv> fetch \<lparr>req_prompt = q, req_width = width, req_height = height,
                            req_seed = stringToSeed q\<rparr>"
  shows "\<forall>k resp. Attempt k \<in> set (observed c) \<and> answer k = Responds resp \<and> succeeds (answer k)
           \<longrightarrow> settles c = read_blob (blob_read resp)"
    and "(\<forall>k. Attempt k \<in> set (observed c) \<longrightarrow> \<not> succeeds (answer k)) \<longrightarrow>
           settles c = Fulfilled (generatePlaceholder P q width height)
           \<or> (\<exists>e. settles c = Rejected e \<and> thrown_by onRetry e
                  \<and> is_OnRetry (last (observed c)))"
    and "\<forall>e. settles c = Rejected e \<longrightarrow>
           (\<exists>k resp. Attempt k \<in> set (observed c) \<and> answer k = Responds resp
                  \<and> succeeds (answer k) \<and> read_blob (blob_read resp) = Rejected e)
           \<or> thrown_by onRetry e \<and> is_OnRetry (last (observed c))"
proof -
  define r where "r = retry_loop P answer onRetry 1 0 None"
  have c: "observed c = events r"
    "settles c = (case ending r of Returned p \<Rightarrow> p | Threw e \<Rightarrow> Rejected e
                  | LoopExit \<Rightarrow> Fulfilled (generatePlaceholder P q width height))"
    by (simp_all add: c_def generateWithPublicModel_def Let_def r_def answer_def)
  note e = retry_loop_end [of P answer onRetry, folded r_def]
  from e have won: "\<exists>resp. answer k = Responds resp
                      \<and> ending r = Returned (read_blob (blob_read resp))"
    if "Attempt k \<in> set (events r)" "succeeds (answer k)" for k
    using that by blast
  from e consider
      (exit) "ending r = LoopExit"
    | (returned) k resp where "Attempt k \<in> set (events r)" "succeeds (answer k)"
        "answer k = Responds resp" "ending r = Returned (read_blob (blob_read resp))"
    | (threw) e where "ending r = Threw e" "thrown_by onRetry e" "is_OnRetry (last (events r))"
    by blast
  note ends = this
  show "\<forall>k resp. Attempt k \<in> set (observed c) \<and> answer k = Responds resp \<and> succeeds (answer k)
           \<longrightarrow> settles c = read_blob (blob_read resp)"
  proof (intro allI impI)
    fix k resp
    assume h: "Attempt k \<in> set (observed c) \<and> answer k = Responds resp \<and> succeeds (answer k)"
    with won [of k] have "ending r = Returned (read_blob (blob_read resp))"
      by (auto simp: c(1))
    then show "settles c = read_blob (blob_read resp)" by (simp add: c(2))
  qed
  show "(\<forall>k. Attempt k \<in> set (observed c) \<longrightarrow> \<not> succeeds (answer k)) \<longrightarrow>
           settles c = Fulfilled (generatePlaceholder P q width height)
           \<or> (\<exists>e. settles c = Rejected e \<and> thrown_by onRetry e
                  \<and> is_OnRetry (last (observed c)))"
  proof
    assume none: "\<forall>k. Attempt k \<in> set (observed c) \<longrightarrow> \<not> succeeds (answer k)"
    from ends show "settles c = Fulfilled (generatePlaceholder P q width height)
           \<or> (\<exists>e. settles c = Rejected e \<and> thrown_by onRetry e
                  \<and> is_OnRetry (last (observed c)))"
    proof cases
      case exit
      then show ?thesis by (simp add: c(2))
    next
      case (returned k resp)
      with none show ?thesis unfolding c(1) by blast
    next
      case threw
      then show ?thesis by (simp add: c)
    qed
  qed
  show "\<forall>e. settles c = Rejected e \<longrightarrow>
           (\<exists>k resp. Attempt k \<in> set (observed c) \<and> answer k = Responds resp
                  \<and> succeeds (answer k) \<and> read_blob (blob_read resp) = Rejected e)
           \<or> thrown_by onRetry e \<and> is_OnRetry (last (observed c))"
  proof (intro allI impI)
    fix e
    assume rej: "settles c = Rejected e"
    from ends show "(\<exists>k resp. Attempt k \<in> set (observed c) \<and> answer k = Responds resp
                  \<and> succeeds (answer k) \<and> read_blob (blob_read resp) = Rejected e)
           \<or> thrown_by onRetry e \<and> is_OnRetry (last (observed c))"
    proof cases
      case exit
      with rej show ?thesis by (simp add: c(2))
    next
      case (returned k resp)
      from rej returned(4) have "read_blob (blob_read resp) = Rejected e" by (simp add: c(2))
      with returned(1-3) show ?thesis unfolding c(1) by blast
    next
      case (threw e')
      with rej have "e' = e" by (simp add: c(2))
      with threw show ?thesis by (simp add: c(1))
    qed
  qed
qed

text \<open>
  Claim C1, as amended. When no attempt that was made succeeds (the attempts are used up,
  or a terminal status ends the loop) and the observer is absent or does not throw,
  \<open>generateWithPublicModel\<close> resolves with the result of \<open>generatePlaceholder\<close> for its
  own arguments; the last error stays in a local variable. With any observer the call
  then resolves with that placeholder or is rejected with a value the observer threw,
  the call of the observer being the last thing that happened. The promise is rejected
  only so, or when an attempt succeeded and reading the blob of its response failed.
\<close>
theorem public_model_falls_back:
  "let c = generateWithPublicModel P fetch q width height onRetry;
       answer = fetch \<lparr>req_prompt = q, req_width = width, req_height = height,
                       req_seed = stringToSeed q\<rparr>
   in ((\<forall>k. Attempt k \<in> set (observed c) \<longrightarrow> \<not> succeeds (answer k)) \<and> never_throws onRetry
         \<longrightarrow> settles c = Fulfilled (generatePlaceholder P q width height))
      \<and> ((\<forall>k. Attempt k \<in> set (observed c) \<longrightarrow> \<not> succeeds (answer k))
         \<longrightarrow> settles c = Fulfilled (generatePlaceholder P q width height)
             \<or> (\<exists>e. settles c = Rejected e \<and> thrown_by onRetry e
                    \<and> is_OnRetry (last (observed c))))
      \<and> (\<forall>e. settles c = Rejected e \<longrightarrow>
            (\<exists>k r. Attempt k \<in> set (observed c) \<and> answer k = Responds r \<and> succeeds (answer k)
                   \<and> read_blob (blob_read r) = Rejected e)
            \<or> thrown_by onRetry e \<and> is_OnRetry (last (observed c)))"
proof -
  note s = generateWithPublicModel_settles [of P fetch q width height onRetry]
  have quiet: "\<not> thrown_by onRetry e" if "never_throws onRetry" for e
    using that never_throws_simps(3) by blast
  show ?thesis
    unfolding Let_def
  proof (intro conjI)
    show "(\<forall>k. Attempt k \<in> set (observed (generateWithPublicModel P fetch q width height onRetry))
              \<longrightarrow> \<not> succeeds (fetch \<lparr>req_prompt = q, req_width = width, req_height = height,
                                       req_seed = stringToSeed q\<rparr> k))
          \<and> never_throws onRetry
          \<longrightarrow> settles (generateWithPublicModel P fetch q width height onRetry)
              = Fulfilled (generatePlaceholder P q width height)"
      using s(2) quiet by blast
  qed (rule s(2) s(3))+
qed


lemmas run_simps =
  retry_loop.simps turn_of_def try_backoff_def catch_block_def backoff_def MAX_RETRIES_def
  always_status_def always_html_def ok_def after_def Let_def

lemma always_500_unobserved:
  "retry_loop P (always_status 500 req) None 1 0 None
   = \<lparr>events = [Attempt 1, Sleep 2000, Attempt 2, Sleep 4000, Attempt 3],
      lastError = Some (lit ''Public model API failed with status: ''
                        @ numberToString P (Fin 500) @ lit ''.''),
      ending = LoopExit\<rparr>"
  by (simp add: run_simps status_error_def)

lemma always_500_throws_always:
  "retry_loop P (always_status 500 req) (Some throws_always) 1 0 None
   = \<lparr>events = [Attempt 1, OnRetry 1 2000, OnRetry 1 2000],
      lastError = Some (lit ''observer failed''),
      ending = Threw (Error (lit ''observer failed''))\<rparr>"
  by (simp add: run_simps status_error_def throws_always_def network_error_def)

lemma always_500_throws_in_turn:
  "retry_loop P (always_status 500 req) (Some throws_in_turn) 1 0 None
   = \<lparr>events = [Attempt 1, OnRetry 1 2000, OnRetry 1 2000, Sleep 2000,
                Attempt 2, OnRetry 2 4000, OnRetry 2 4000, Sleep 4000, Attempt 3],
      lastError = Some (lit ''Public model API failed with status: ''
                        @ numberToString P (Fin 500) @ lit ''.''),
      ending = LoopExit\<rparr>"
  by (simp add: run_simps status_error_def throws_in_turn_def network_error_def)

lemma always_500_batchObserver:
  "retry_loop P (always_status 500 req) (Some batchObserver) 1 0 None
   = \<lparr>events = [Attempt 1, OnRetry 1 2000, Sleep 2000,
                Attempt 2, OnRetry 2 4000, Sleep 4000, Attempt 3],
      lastError = Some (lit ''Public model API failed with status: ''
                        @ numberToString P (Fin 500) @ lit ''.''),
      ending = LoopExit\<rparr>"
  by (simp add: run_simps status_error_def batchObserver_def)

lemma always_html_unobserved:
  "retry_loop P (always_html req) None 1 0 None
   = \<lparr>events = [Attempt 1, Sleep 2000, Attempt 2, Sleep 4000, Attempt 3],
      lastError = Some (lit ''Public model returned non-image content (type: text/html).''),
      ending = LoopExit\<rparr>"
  by (simp add: run_simps non_image_error_def lit_def)


lemma numberToString_500: "numberToString example_browser (Fin 500) = lit ''500''"
  by code_simp

text \<open>
  Claim C1 as stated fails for a transport that always answers 500: the call resolves
  with the placeholder, and the last error observed is not surfaced.
\<close>
theorem public_model_error_counterexample:
  "settles (generateWithPublicModel example_browser (always_status 500) (lit ''cat'') (Fin 64)
              (Fin 64) None)
     = Fulfilled (generatePlaceholder example_browser (lit ''cat'') (Fin 64) (Fin 64))
   \<and> last_error (generateWithPublicModel example_browser (always_status 500) (lit ''cat'')
                   (Fin 64) (Fin 64) None)
     = Some (lit ''Public model API failed with status: 500.'')"
  unfolding generateWithPublicModel_def Let_def always_500_unobserved
  by (simp add: numberToString_500 lit_def)

lemma never_throws_batchObserver: "never_throws (Some batchObserver)"
  by (simp add: never_throws_def batchObserver_def)

text \<open>
  The amended claim C1 for a transport that always answers 503, with the observer of the
  batch.
\<close>
theorem public_model_falls_back_witness:
  "\<not> succeeds (always_status 503 \<lparr>req_prompt = lit ''dog'', req_width = Fin 32,
                   req_height = Fin 48, req_seed = stringToSeed (lit ''dog'')\<rparr> 1)
   \<and> \<not> succeeds (always_status 503 \<lparr>req_prompt = lit ''dog'', req_width = Fin 32,
                   req_height = Fin 48, req_seed = stringToSeed (lit ''dog'')\<rparr> 2)
   \<and> \<not> succeeds (always_status 503 \<lparr>req_prompt = lit ''dog'', req_width = Fin 32,
                   req_height = Fin 48, req_seed = stringToSeed (lit ''dog'')\<rparr> 3)
   \<and> never_throws (Some batchObserver)
   \<and> settles (generateWithPublicModel example_browser (always_status 503) (lit ''dog'') (Fin 32)
                (Fin 48) (Some batchObserver))
       = Fulfilled (generatePlaceholder example_browser (lit ''dog'') (Fin 32) (Fin 48))"
proof -
  have no: "\<not> succeeds (always_status 503 req k)" for req k
    by (simp add: succeeds_def always_status_def ok_def)
  have "settles (generateWithPublicModel example_browser (always_status 503) (lit ''dog'') (Fin 32)
                   (Fin 48) (Some batchObserver))
       = Fulfilled (generatePlaceholder example_browser (lit ''dog'') (Fin 32) (Fin 48))"
    using public_model_falls_back [of example_browser "always_status 503" "lit ''dog''" "Fin 32"
        "Fin 48" "Some batchObserver"] never_throws_batchObserver
    unfolding Let_def by (simp add: no)
  with no never_throws_batchObserver show ?thesis by blast
qed

lemma timeline_calls:
  assumes "observer_calls onRetry k os"
  shows "timeline_of (ev @ os @ ev') = timeline_of ev @ timeline_of ev'"
  using observer_calls_events [OF assms] by (auto simp: timeline_of_def)

lemma timeline_thrown:
  assumes "thrown_calls onRetry k os e"
  shows "timeline_of (ev @ os) = timeline_of ev"
  using thrown_calls_events [OF assms] by (auto simp: timeline_of_def)

lemma timeline_of_simps:
  "timeline_of [] = []"
  "timeline_of (Attempt k # ev) = Attempt k # timeline_of ev"
  "timeline_of (Sleep d # ev) = Sleep d # timeline_of ev"
  "timeline_of (OnRetry a d # ev) = timeline_of ev"
  by (simp_all add: timeline_of_def)

lemma timeline_course:
  fixes P answer onRetry
  defines "r \<equiv> retry_loop P answer onRetry 1 0 None"
  defines "timeline \<equiv> timeline_of (events r)"
  obtains
    (one) "timeline = [Attempt 1]"
      "succeeds (answer 1) \<or> terminal (answer 1) \<or> \<not> never_throws onRetry"
  | (two) "\<not> succeeds (answer 1)" "\<not> terminal (answer 1)"
      "timeline = [Attempt 1, Sleep 2000, Attempt 2]"
      "succeeds (answer 2) \<or> terminal (answer 2) \<or> \<not> never_throws onRetry"
  | (three) "\<not> succeeds (answer 1)" "\<not> terminal (answer 1)"
      "\<not> succeeds (answer 2)" "\<not> terminal (answer 2)"
      "timeline = [Attempt 1, Sleep 2000, Attempt 2, Sleep 4000, Attempt 3]"
      "succeeds (answer 3) \<or> terminal (answer 3)
       \<or> lastError r = Some (failure P (answer 3)) \<and> ending r = LoopExit"
proof (cases rule: retry_loop_course [of answer P onRetry])
  case first
  have "timeline = [Attempt 1]"
    unfolding timeline_def r_def first(2) by (simp add: events_last_turn timeline_of_simps)
  then show ?thesis using one first(1) by blast
next
  case (threw1 os err e)
  have "timeline = [Attempt 1]"
    unfolding timeline_def r_def threw1(4)
    using timeline_thrown [OF threw1(3), of "[Attempt 1]"] by (simp add: timeline_of_simps)
  moreover have "\<not> never_throws onRetry"
    using thrown_calls_events [OF threw1(3)] by blast
  ultimately show ?thesis using one by blast
next
  case (second os1 err)
  have "timeline = [Attempt 1, Sleep 2000, Attempt 2]"
    unfolding timeline_def r_def second(5)
    using timeline_calls [OF second(4), of "[Attempt 1]" "[Sleep 2000, Attempt 2]"]
    by (simp add: after_simps events_last_turn timeline_of_simps)
  then show ?thesis using two second(1-3) by blast
next
  case (threw2 os1 os2 err e)
  have "timeline_of (Attempt 1 # os1 @ Sleep 2000 # Attempt 2 # os2)
        = timeline_of ([Attempt 1] @ os1 @ [Sleep 2000, Attempt 2])"
    using timeline_thrown [OF threw2(6), of "Attempt 1 # os1 @ [Sleep 2000, Attempt 2]"]
    by simp
  then have "timeline = [Attempt 1, Sleep 2000, Attempt 2]"
    unfolding timeline_def r_def threw2(7)
    using timeline_calls [OF threw2(5), of "[Attempt 1]" "[Sleep 2000, Attempt 2]"]
    by (simp add: timeline_of_simps)
  moreover have "\<not> never_throws onRetry"
    using thrown_calls_events [OF threw2(6)] by blast
  ultimately show ?thesis using two threw2(1,2) by blast
next
  case (third os1 os2 err)
  have "timeline_of (Attempt 1 # os1 @ Sleep 2000 # Attempt 2 # os2 @ [Sleep 4000, Attempt 3])
        = [Attempt 1, Sleep 2000, Attempt 2, Sleep 4000, Attempt 3]"
    using timeline_calls [OF third(6), of "[Attempt 1]"
        "Sleep 2000 # Attempt 2 # os2 @ [Sleep 4000, Attempt 3]"]
      timeline_calls [OF third(7), of "[Sleep 2000, Attempt 2]" "[Sleep 4000, Attempt 3]"]
    by (simp add: timeline_of_simps)
  then have "timeline = [Attempt 1, Sleep 2000, Attempt 2, Sleep 4000, Attempt 3]"
    unfolding timeline_def r_def third(8) by (simp add: after_simps events_last_turn)
  then show ?thesis using three third(1-5) by blast
next
  case (exhausted os1 os2)
  have "timeline_of (Attempt 1 # os1 @ Sleep 2000 # Attempt 2 # os2 @ [Sleep 4000, Attempt 3])
        = [Attempt 1, Sleep 2000, Attempt 2, Sleep 4000, Attempt 3]"
    using timeline_calls [OF exhausted(7), of "[Attempt 1]"
        "Sleep 2000 # Attempt 2 # os2 @ [Sleep 4000, Attempt 3]"]
      timeline_calls [OF exhausted(8), of "[Sleep 2000, Attempt 2]" "[Sleep 4000, Attempt 3]"]
    by (simp add: timeline_of_simps)
  then have "timeline = [Attempt 1, Sleep 2000, Attempt 2, Sleep 4000, Attempt 3]"
    unfolding timeline_def r_def exhausted(9) by simp
  moreover have "lastError r = Some (failure P (answer 3)) \<and> ending r = LoopExit"
    unfolding r_def exhausted(9) by simp
  ultimately show ?thesis using three exhausted(1-4) by blast
qed


text \<open>
  Claim C6, as amended. Leaving the calls of the observer aside, what happens in a call
  is a beginning of: attempt 1, sleep \<open>2 ^ 1 * 1000\<close>, attempt 2, sleep
  \<open>2 ^ 2 * 1000\<close>, attempt 3, ending with one of the at most three attempts. A response
  that is not ok, with a status below 500 other than 429, is the last thing that happens.
  When every answer is a 500 and the observer is absent or does not throw, there are
  exactly three attempts with the sleeps 2000 and 4000, the last error is the one of the
  status 500, and the call then resolves with the placeholder. When the first answer is
  a 400 there is exactly one attempt.
\<close>
theorem retry_policy:
  "let c = generateWithPublicModel P fetch q width height onRetry;
       answer = fetch \<lparr>req_prompt = q, req_width = width, req_height = height,
                       req_seed = stringToSeed q\<rparr>;
       timeline = timeline_of (observed c)
   in (\<exists>n. 1 \<le> n \<and> n \<le> MAX_RETRIES
          \<and> timeline = take (2 * n - 1)
               [Attempt 1, Sleep (2 ^ 1 * 1000), Attempt 2, Sleep (2 ^ 2 * 1000), Attempt 3])
      \<and> (\<forall>k r. Attempt k \<in> set timeline \<and> answer k = Responds r
                \<and> \<not> ok r \<and> response.status r < 500 \<and> response.status r \<noteq> 429
              \<longrightarrow> last timeline = Attempt k)
      \<and> ((\<forall>k. \<exists>r. answer k = Responds r \<and> response.status r = 500) \<and> never_throws onRetry
            \<longrightarrow> timeline = [Attempt 1, Sleep 2000, Attempt 2, Sleep 4000, Attempt 3]
              \<and> last_error c = Some (lit ''Public model API failed with status: ''
                                       @ numberToString P (Fin 500) @ lit ''.'')
              \<and> settles c = Fulfilled (generatePlaceholder P q width height))
      \<and> ((\<exists>r. answer 1 = Responds r \<and> response.status r = 400) \<longrightarrow> timeline = [Attempt 1])"
proof -
  define answer where
    "answer = fetch \<lparr>req_prompt = q, req_width = width, req_height = height,
                     req_seed = stringToSeed q\<rparr>"
  define r where "r = retry_loop P answer onRetry 1 0 None"
  define timeline where "timeline = timeline_of (events r)"
  define full where
    "full = [Attempt 1, Sleep (2 ^ 1 * 1000), Attempt 2, Sleep (2 ^ 2 * 1000), Attempt 3]"
  have tmn: "terminal (answer k)"
    if "answer k = Responds x \<and> \<not> ok x \<and> response.status x < 500 \<and> response.status x \<noteq> 429" for k x
    using that by (simp add: terminal_def)
  have s500: "\<not> succeeds (answer k) \<and> \<not> terminal (answer k)
              \<and> failure P (answer k) = lit ''Public model API failed with status: ''
                                       @ numberToString P (Fin 500) @ lit ''.''"
    if "\<forall>k. \<exists>x. answer k = Responds x \<and> response.status x = 500" for k
  proof -
    from that obtain x where "answer k = Responds x" "response.status x = 500" by blast
    then show ?thesis
      by (simp add: succeeds_def terminal_def failure_def ok_def status_error_def)
  qed
  have s400: "terminal (answer 1)" if "\<exists>x. answer 1 = Responds x \<and> response.status x = 400"
    using that by (auto simp: terminal_def ok_def)
  have "(\<exists>n. 1 \<le> n \<and> n \<le> MAX_RETRIES \<and> timeline = take (2 * n - 1) full)
      \<and> (\<forall>k x. Attempt k \<in> set timeline \<and> answer k = Responds x
                \<and> \<not> ok x \<and> response.status x < 500 \<and> response.status x \<noteq> 429
              \<longrightarrow> last timeline = Attempt k)
      \<and> ((\<forall>k. \<exists>x. answer k = Responds x \<and> response.status x = 500) \<and> never_throws onRetry
            \<longrightarrow> timeline = [Attempt 1, Sleep 2000, Attempt 2, Sleep 4000, Attempt 3]
              \<and> lastError r = Some (lit ''Public model API failed with status: ''
                                       @ numberToString P (Fin 500) @ lit ''.'')
              \<and> ending r = LoopExit)
      \<and> ((\<exists>x. answer 1 = Responds x \<and> response.status x = 400) \<longrightarrow> timeline = [Attempt 1])"
  proof (cases rule: timeline_course [of P answer onRetry])
    case one
    let ?tl = "timeline_of (events (retry_loop P answer onRetry 1 0 None))"
    have "1 \<le> (1::nat) \<and> (1::nat) \<le> MAX_RETRIES \<and> ?tl = take (2 * 1 - 1) full"
      unfolding one(1) full_def by (simp add: MAX_RETRIES_def)
    then have A: "\<exists>n. 1 \<le> n \<and> n \<le> MAX_RETRIES \<and> ?tl = take (2 * n - 1) full" by blast
    have B: "\<forall>k x. Attempt k \<in> set ?tl \<and> answer k = Responds x
                \<and> \<not> ok x \<and> response.status x < 500 \<and> response.status x \<noteq> 429
              \<longrightarrow> last ?tl = Attempt k"
      unfolding one(1) by simp
    have C: "\<not> ((\<forall>k. \<exists>x. answer k = Responds x \<and> response.status x = 500)
                \<and> never_throws onRetry)"
      using s500 [of 1] one(2) by blast
    show ?thesis unfolding timeline_def r_def using A B C one(1) by blast
  next
    case two
    let ?tl = "timeline_of (events (retry_loop P answer onRetry 1 0 None))"
    have "1 \<le> (2::nat) \<and> (2::nat) \<le> MAX_RETRIES \<and> ?tl = take (2 * 2 - 1) full"
      unfolding two(3) full_def by (simp add: MAX_RETRIES_def)
    then have A: "\<exists>n. 1 \<le> n \<and> n \<le> MAX_RETRIES \<and> ?tl = take (2 * n - 1) full" by blast
    have B: "\<forall>k x. Attempt k \<in> set ?tl \<and> answer k = Responds x
                \<and> \<not> ok x \<and> response.status x < 500 \<and> response.status x \<noteq> 429
              \<longrightarrow> last ?tl = Attempt k"
    proof (intro allI impI)
      fix k x
      assume h: "Attempt k \<in> set ?tl \<and> answer k = Responds x
                \<and> \<not> ok x \<and> response.status x < 500 \<and> response.status x \<noteq> 429"
      then have "terminal (answer k)" using tmn by blast
      moreover from h have "k = 1 \<or> k = 2" unfolding two(3) by simp
      ultimately have "k = 2" using two(2) by blast
      then show "last ?tl = Attempt k" unfolding two(3) by simp
    qed
    have C: "\<not> ((\<forall>k. \<exists>x. answer k = Responds x \<and> response.status x = 500)
                \<and> never_throws onRetry)"
      using s500 [of 2] two(4) by blast
    have D: "\<not> (\<exists>x. answer 1 = Responds x \<and> response.status x = 400)"
      using s400 two(2) by blast
    show ?thesis unfolding timeline_def r_def using A B C D by blast
  next
    case three
    let ?tl = "timeline_of (events (retry_loop P answer onRetry 1 0 None))"
    have "1 \<le> (3::nat) \<and> (3::nat) \<le> MAX_RETRIES \<and> ?tl = take (2 * 3 - 1) full"
      unfolding three(5) full_def by (simp add: MAX_RETRIES_def)
    then have A: "\<exists>n. 1 \<le> n \<and> n \<le> MAX_RETRIES \<and> ?tl = take (2 * n - 1) full" by blast
    have B: "\<forall>k x. Attempt k \<in> set ?tl \<and> answer k = Responds x
                \<and> \<not> ok x \<and> response.status x < 500 \<and> response.status x \<noteq> 429
              \<longrightarrow> last ?tl = Attempt k"
    proof (intro allI impI)
      fix k x
      assume h: "Attempt k \<in> set ?tl \<and> answer k = Responds x
                \<and> \<not> ok x \<and> response.status x < 500 \<and> response.status x \<noteq> 429"
      then have "terminal (answer k)" using tmn by blast
      moreover from h have "k = 1 \<or> k = 2 \<or> k = 3" unfolding three(5) by simp
      ultimately have "k = 3" using three(2,4) by blast
      then show "last ?tl = Attempt k" unfolding three(5) by simp
    qed
    have C: "lastError (retry_loop P answer onRetry 1 0 None)
               = Some (lit ''Public model API failed with status: ''
                         @ numberToString P (Fin 500) @ lit ''.'')
             \<and> ending (retry_loop P answer onRetry 1 0 None) = LoopExit"
      if "\<forall>k. \<exists>x. answer k = Responds x \<and> response.status x = 500"
      using s500 [OF that, of 3] three(6) by simp
    have D: "\<not> (\<exists>x. answer 1 = Responds x \<and> response.status x = 400)"
      using s400 three(2) by blast
    show ?thesis unfolding timeline_def r_def using A B C D three(5) by blast
  qed
  then show ?thesis
    unfolding Let_def generateWithPublicModel_def answer_def [symmetric] r_def [symmetric]
      timeline_def full_def
    by auto
qed

text \<open>
  Claim C6 as stated fails in three places. After the three attempts against a transport
  that always answers 500 no failure is surfaced: the call resolves with the placeholder.
  A status below 500 other than 429 does not end the attempts when the response is ok:
  against a transport that always answers 200 with a page of HTML all three attempts are
  made. And against the transport that always answers 500 there is one attempt only when
  the observer throws: its first exception is caught as an error of the network would be,
  the second rejects the promise.
\<close>
theorem retry_policy_surfaced_counterexample:
  "observed (generateWithPublicModel example_browser (always_status 500) (lit ''a hero'')
               (Fin 96) (Fin 128) None)
     = [Attempt 1, Sleep 2000, Attempt 2, Sleep 4000, Attempt 3]
   \<and> settles (generateWithPublicModel example_browser (always_status 500) (lit ''a hero'')
                (Fin 96) (Fin 128) None)
     = Fulfilled (generatePlaceholder example_browser (lit ''a hero'') (Fin 96) (Fin 128))
   \<and> always_html \<lparr>req_prompt = lit ''a hero'', req_width = Fin 96, req_height = Fin 128,
                   req_seed = stringToSeed (lit ''a hero'')\<rparr> 1
     = Responds \<lparr>response.status = 200, blob_type = lit ''text/html'', blob_read = LoadEnd None\<rparr>
   \<and> observed (generateWithPublicModel example_browser always_html (lit ''a hero'')
                 (Fin 96) (Fin 128) None)
     = [Attempt 1, Sleep 2000, Attempt 2, Sleep 4000, Attempt 3]
   \<and> observed (generateWithPublicModel example_browser (always_status 500) (lit ''a hero'')
                 (Fin 96) (Fin 128) (Some throws_always))
     = [Attempt 1, OnRetry 1 2000, OnRetry 1 2000]
   \<and> settles (generateWithPublicModel example_browser (always_status 500) (lit ''a hero'')
                (Fin 96) (Fin 128) (Some throws_always))
     = Rejected (Error (lit ''observer failed''))"
  unfolding generateWithPublicModel_def Let_def always_500_unobserved always_html_unobserved
    always_500_throws_always
  by (simp add: always_html_def)

text \<open>
  The amended claim C6 for a transport that always answers 500, with the observer of the
  batch.
\<close>
theorem retry_policy_witness:
  "(\<forall>k. \<exists>r. always_status 500 \<lparr>req_prompt = lit ''cat'', req_width = Fin 64, req_height = Fin 64,
                                 req_seed = stringToSeed (lit ''cat'')\<rparr> k = Responds r
              \<and> response.status r = 500)
   \<and> never_throws (Some batchObserver)
   \<and> timeline_of
        (observed (generateWithPublicModel example_browser (always_status 500) (lit ''cat'')
                     (Fin 64) (Fin 64) (Some batchObserver)))
      = [Attempt 1, Sleep 2000, Attempt 2, Sleep 4000, Attempt 3]"
proof -
  have all: "\<forall>k. \<exists>r. always_status 500 req k = Responds r \<and> response.status r = 500" for req
    by (simp add: always_status_def)
  show ?thesis
    using retry_policy [of example_browser "always_status 500" "lit ''cat''" "Fin 64" "Fin 64"
        "Some batchObserver"] all never_throws_batchObserver
    unfolding Let_def by blast
qed


text \<open>The calls of the observer within the events of a call, by its course.\<close>

lemma observer_calls_in:
  assumes "ev = [Attempt 1]
           \<or> (\<exists>os e. thrown_calls onRetry 1 os e \<and> ev = Attempt 1 # os)
           \<or> (\<exists>os1. observer_calls onRetry 1 os1 \<and> ev = Attempt 1 # os1 @ [Sleep 2000, Attempt 2])
           \<or> (\<exists>os1 os2 e. observer_calls onRetry 1 os1 \<and> thrown_calls onRetry 2 os2 e
                 \<and> ev = Attempt 1 # os1 @ Sleep 2000 # Attempt 2 # os2)
           \<or> (\<exists>os1 os2. observer_calls onRetry 1 os1 \<and> observer_calls onRetry 2 os2
                 \<and> ev = Attempt 1 # os1 @ Sleep 2000 # Attempt 2 # os2 @ [Sleep 4000, Attempt 3])"
  shows "(\<forall>i a d. i < length ev \<and> ev ! i = OnRetry a d \<longrightarrow>
            onRetry \<noteq> None \<and> (a = 1 \<or> a = 2) \<and> d = 2 ^ a * 1000
            \<and> (i + 2 < length ev \<and> ev ! (i + 1) = Sleep d \<and> ev ! (i + 2) = Attempt (a + 1)
               \<or> \<not> never_throws onRetry
                 \<and> (i + 1 = length ev \<or> i + 1 < length ev \<and> ev ! (i + 1) = OnRetry a d)))
       \<and> length (filter is_OnRetry ev) \<le> (if never_throws onRetry then 2 else 4)
       \<and> (Attempt 3 \<in> set ev \<longrightarrow> last ev = Attempt 3)"
  using assms
proof (elim disjE exE conjE)
  assume "ev = [Attempt 1]"
  then show ?thesis by (auto simp: nth_Cons')
next
  fix os e
  assume "thrown_calls onRetry 1 os e" "ev = Attempt 1 # os"
  with thrown_calls_events [of onRetry 1 os e] show ?thesis
    by (auto simp: nth_Cons' split: if_splits)
next
  fix os1
  assume "observer_calls onRetry 1 os1" "ev = Attempt 1 # os1 @ [Sleep 2000, Attempt 2]"
  with observer_calls_events [of onRetry 1 os1] show ?thesis
    by (auto simp: nth_Cons' split: if_splits)
next
  fix os1 os2 e
  assume "observer_calls onRetry 1 os1" "thrown_calls onRetry 2 os2 e"
    "ev = Attempt 1 # os1 @ Sleep 2000 # Attempt 2 # os2"
  with observer_calls_events [of onRetry 1 os1] thrown_calls_events [of onRetry 2 os2 e]
  show ?thesis
    by (auto simp: nth_Cons' split: if_splits)
next
  fix os1 os2
  assume "observer_calls onRetry 1 os1" "observer_calls onRetry 2 os2"
    "ev = Attempt 1 # os1 @ Sleep 2000 # Attempt 2 # os2 @ [Sleep 4000, Attempt 3]"
  with observer_calls_events [of onRetry 1 os1] observer_calls_events [of onRetry 2 os2]
  show ?thesis
    by (auto simp: nth_Cons' split: if_splits)
qed


lemma events_course:
  fixes P answer onRetry
  defines "ev \<equiv> events (retry_loop P answer onRetry 1 0 None)"
  shows "(ev = [Attempt 1]
           \<or> (\<exists>os e. thrown_calls onRetry 1 os e \<and> ev = Attempt 1 # os)
           \<or> (\<exists>os1. observer_calls onRetry 1 os1 \<and> ev = Attempt 1 # os1 @ [Sleep 2000, Attempt 2])
           \<or> (\<exists>os1 os2 e. observer_calls onRetry 1 os1 \<and> thrown_calls onRetry 2 os2 e
                 \<and> ev = Attempt 1 # os1 @ Sleep 2000 # Attempt 2 # os2)
           \<or> (\<exists>os1 os2. observer_calls onRetry 1 os1 \<and> observer_calls onRetry 2 os2
                 \<and> ev = Attempt 1 # os1 @ Sleep 2000 # Attempt 2 # os2 @ [Sleep 4000, Attempt 3]))
       \<and> (\<forall>k. Attempt k \<in> set ev \<and> terminal (answer k) \<longrightarrow> last ev = Attempt k)"
proof (cases rule: retry_loop_course [of answer P onRetry])
  case first
  then show ?thesis unfolding ev_def by (simp add: events_last_turn)
next
  case (threw1 os err e)
  have "ev = Attempt 1 # os" unfolding ev_def threw1(4) by simp
  moreover from this thrown_calls_events [OF threw1(3)] threw1(2)
  have "\<forall>k. Attempt k \<in> set ev \<and> terminal (answer k) \<longrightarrow> last ev = Attempt k" by auto
  ultimately show ?thesis using threw1(3) by blast
next
  case (second os1 err)
  have "ev = Attempt 1 # os1 @ [Sleep 2000, Attempt 2]"
    unfolding ev_def second(5) by (simp add: after_simps events_last_turn)
  moreover from this observer_calls_events [OF second(4)] second(2)
  have "\<forall>k. Attempt k \<in> set ev \<and> terminal (answer k) \<longrightarrow> last ev = Attempt k" by auto
  ultimately show ?thesis using second(4) by blast
next
  case (threw2 os1 os2 err e)
  have "ev = Attempt 1 # os1 @ Sleep 2000 # Attempt 2 # os2" unfolding ev_def threw2(7) by simp
  moreover from this observer_calls_events [OF threw2(5)] thrown_calls_events [OF threw2(6)]
    threw2(2,4)
  have "\<forall>k. Attempt k \<in> set ev \<and> terminal (answer k) \<longrightarrow> last ev = Attempt k" by auto
  ultimately show ?thesis using threw2(5,6) by blast
next
  case (third os1 os2 err)
  have "ev = Attempt 1 # os1 @ Sleep 2000 # Attempt 2 # os2 @ [Sleep 4000, Attempt 3]"
    unfolding ev_def third(8) by (simp add: after_simps events_last_turn)
  moreover from this observer_calls_events [OF third(6)] observer_calls_events [OF third(7)]
    third(2,4)
  have "\<forall>k. Attempt k \<in> set ev \<and> terminal (answer k) \<longrightarrow> last ev = Attempt k" by auto
  ultimately show ?thesis using third(6,7) by blast
next
  case (exhausted os1 os2)
  have "ev = Attempt 1 # os1 @ Sleep 2000 # Attempt 2 # os2 @ [Sleep 4000, Attempt 3]"
    unfolding ev_def exhausted(9) by simp
  moreover from this observer_calls_events [OF exhausted(7)] observer_calls_events [OF exhausted(8)]
    exhausted(2,4)
  have "\<forall>k. Attempt k \<in> set ev \<and> terminal (answer k) \<longrightarrow> last ev = Attempt k" by auto
  ultimately show ?thesis using exhausted(7,8) by blast
qed

text \<open>
  Claim C10, as amended. When the observer does not throw, every call of it is followed
  at once by the sleep of its second argument and then by the next attempt, and there
  are at most two calls. In every execution a call has the arguments
  \<open>(attempt, 2 ^ attempt * 1000)\<close> with \<open>attempt\<close> 1 or 2 and is followed by that sleep
  and the next attempt, or by a second call with the same arguments, or by nothing; there
  are at most four calls; and nothing happens, so no call is made, after the third
  attempt or after an attempt whose terminal status breaks the loop.
\<close>
theorem onRetry_before_next_attempt:
  "let ev = observed (generateWithPublicModel P fetch q width height onRetry);
       answer = fetch \<lparr>req_prompt = q, req_width = width, req_height = height,
                       req_seed = stringToSeed q\<rparr>
   in (never_throws onRetry \<longrightarrow>
         (\<forall>i a d. i < length ev \<and> ev ! i = OnRetry a d \<longrightarrow>
            i + 2 < length ev \<and> ev ! (i + 1) = Sleep d \<and> ev ! (i + 2) = Attempt (a + 1))
         \<and> length (filter is_OnRetry ev) \<le> 2)
      \<and> (\<forall>i a d. i < length ev \<and> ev ! i = OnRetry a d \<longrightarrow>
            onRetry \<noteq> None \<and> (a = 1 \<or> a = 2) \<and> d = 2 ^ a * 1000
            \<and> (i + 2 < length ev \<and> ev ! (i + 1) = Sleep d \<and> ev ! (i + 2) = Attempt (a + 1)
               \<or> i + 1 < length ev \<and> ev ! (i + 1) = OnRetry a d
               \<or> i + 1 = length ev))
      \<and> length (filter is_OnRetry ev) \<le> 4
      \<and> (Attempt 3 \<in> set ev \<longrightarrow> last ev = Attempt 3)
      \<and> (\<forall>k. Attempt k \<in> set ev \<and> terminal (answer k) \<longrightarrow> last ev = Attempt k)"
proof -
  define answer where
    "answer = fetch \<lparr>req_prompt = q, req_width = width, req_height = height,
                     req_seed = stringToSeed q\<rparr>"
  define ev where "ev = events (retry_loop P answer onRetry 1 0 None)"
  note c = events_course [of P answer onRetry, folded ev_def]
  note o = observer_calls_in [OF c [THEN conjunct1]]
  have quiet: "(\<forall>i a d. i < length ev \<and> ev ! i = OnRetry a d \<longrightarrow>
            i + 2 < length ev \<and> ev ! (i + 1) = Sleep d \<and> ev ! (i + 2) = Attempt (a + 1))
         \<and> length (filter is_OnRetry ev) \<le> 2" if "never_throws onRetry"
    using o that by (simp only: if_True simp_thms) blast
  have calls: "\<forall>i a d. i < length ev \<and> ev ! i = OnRetry a d \<longrightarrow>
            onRetry \<noteq> None \<and> (a = 1 \<or> a = 2) \<and> d = 2 ^ a * 1000
            \<and> (i + 2 < length ev \<and> ev ! (i + 1) = Sleep d \<and> ev ! (i + 2) = Attempt (a + 1)
               \<or> i + 1 < length ev \<and> ev ! (i + 1) = OnRetry a d
               \<or> i + 1 = length ev)"
    using o by blast
  have count: "length (filter is_OnRetry ev) \<le> 4"
    using o by (cases "never_throws onRetry") simp_all
  have third: "Attempt 3 \<in> set ev \<longrightarrow> last ev = Attempt 3"
    using o by blast
  have brk: "\<forall>k. Attempt k \<in> set ev \<and> terminal (answer k) \<longrightarrow> last ev = Attempt k"
    using c by blast
  from quiet calls count third brk show ?thesis
    unfolding Let_def generateWithPublicModel_def answer_def [symmetric] ev_def [symmetric]
    by simp
qed

text \<open>
  Claim C10 as stated fails when the observer throws, against a transport that always
  answers 500. An observer all of whose calls throw is called twice for the first
  attempt, and neither a sleep nor an attempt follows. An observer whose calls throw in
  turn is called four times, and its first and third call are followed by a second call
  for the same attempt.
\<close>
theorem onRetry_twice_counterexample:
  "observed (generateWithPublicModel example_browser (always_status 500) (lit ''cat'') (Fin 64)
               (Fin 64) (Some throws_always))
     = [Attempt 1, OnRetry 1 2000, OnRetry 1 2000]
   \<and> observed (generateWithPublicModel example_browser (always_status 500) (lit ''cat'') (Fin 64)
                 (Fin 64) (Some throws_in_turn))
     = [Attempt 1, OnRetry 1 2000, OnRetry 1 2000, Sleep 2000,
        Attempt 2, OnRetry 2 4000, OnRetry 2 4000, Sleep 4000, Attempt 3]"
  unfolding generateWithPublicModel_def Let_def always_500_throws_always always_500_throws_in_turn
  by simp

text \<open>
  The amended claim C10 at the first call of the observer of the batch, against a
  transport that always answers 500.
\<close>
theorem onRetry_before_next_attempt_witness:
  "let ev = observed (generateWithPublicModel example_browser (always_status 500) (lit ''cat'')
                        (Fin 64) (Fin 64) (Some batchObserver))
   in never_throws (Some batchObserver)
      \<and> (1 < length ev \<and> ev ! 1 = OnRetry 1 2000)
      \<and> (ev ! (1 + 1) = Sleep 2000 \<and> ev ! (1 + 2) = Attempt (1 + 1))"
proof -
  define ev where
    "ev = observed (generateWithPublicModel example_browser (always_status 500) (lit ''cat'')
                      (Fin 64) (Fin 64) (Some batchObserver))"
  have "ev = [Attempt 1, OnRetry 1 2000, Sleep 2000, Attempt 2, OnRetry 2 4000, Sleep 4000,
              Attempt 3]"
    unfolding ev_def generateWithPublicModel_def Let_def always_500_batchObserver
    by simp
  then have hyp: "1 < length ev \<and> ev ! 1 = OnRetry 1 2000" by simp
  have "\<forall>i a d. i < length ev \<and> ev ! i = OnRetry a d \<longrightarrow>
          i + 2 < length ev \<and> ev ! (i + 1) = Sleep d \<and> ev ! (i + 2) = Attempt (a + 1)"
    using onRetry_before_next_attempt [of example_browser "always_status 500" "lit ''cat''"
        "Fin 64" "Fin 64" "Some batchObserver"] never_throws_batchObserver
    unfolding Let_def ev_def by blast
  with hyp have "ev ! (1 + 1) = Sleep 2000 \<and> ev ! (1 + 2) = Attempt (1 + 1)" by blast
  with hyp never_throws_batchObserver show ?thesis unfolding Let_def ev_def by blast
qed

section \<open>Properties of the panel\<close>

subsection \<open>The published states of a batch job\<close>

lemma states_append: "states (xs @ ys) = states xs @ states ys"
  by (induction xs rule: states.induct) simp_all

lemma publish_simps:
  "progress (publish f j) = f (progress j)"
  "history (publish f j) = history j @ [Publish (f (progress j))]"
  "failures (publish f j) = failures j"
  "firstErrorMessage (publish f j) = firstErrorMessage j"
  by (simp_all add: publish_def)

lemma pause_simps:
  "progress (pause d j) = progress j"
  "history (pause d j) = history j @ [Wait d]"
  "failures (pause d j) = failures j"
  "firstErrorMessage (pause d j) = firstErrorMessage j"
  by (simp_all add: pause_def)

lemma tidy_publish:
  assumes "tidy j" and "good (f (progress j))"
    and "current (progress j) \<le> current (f (progress j))"
  shows "tidy (publish f j)"
  using assms
  by (auto simp: tidy_def publish_simps states_append sorted_append)

lemma tidy_pause: "tidy j \<Longrightarrow> tidy (pause d j)"
  by (simp add: tidy_def pause_simps states_append)

lemma good_same_counts: "same_counts s t \<Longrightarrow> good s \<Longrightarrow> good t"
  by (simp add: same_counts_def good_def)

lemma onRetryCallback_counts: "same_counts s (onRetryCallback P a d s)"
  by (simp add: onRetryCallback_def same_counts_def Let_def)

lemma relay_effect:
  assumes "tidy j" and "good (progress j)"
  shows "tidy (relay P es j) \<and> same_counts (progress j) (progress (relay P es j))
         \<and> failures (relay P es j) = failures j
         \<and> firstErrorMessage (relay P es j) = firstErrorMessage j"
  using assms
proof (induction P es j rule: relay.induct)
  case (1 P j)
  then show ?case by (simp add: same_counts_def)
next
  case (2 P attempt delay es j)
  let ?j = "publish (onRetryCallback P attempt delay) j"
  have sc: "same_counts (progress j) (progress ?j)"
    by (simp add: publish_simps onRetryCallback_counts)
  then have g: "good (progress ?j)" using "2.prems"(2) by (rule good_same_counts)
  have "tidy ?j"
    using "2.prems"(1) g sc by (intro tidy_publish) (simp_all add: publish_simps same_counts_def)
  from "2.IH" [OF this g] sc show ?case by (simp add: same_counts_def publish_simps)
next
  case (3 P delay es j)
  have "tidy (pause delay j)" using "3.prems"(1) by (rule tidy_pause)
  moreover have "good (progress (pause delay j))" using "3.prems"(2) by (simp add: pause_simps)
  ultimately show ?case using "3.IH" by (simp add: pause_simps)
next
  case (4 P attempt es j)
  then show ?case by simp
qed

lemma in_row_good: "in_row i j \<Longrightarrow> good (progress j)"
  by (simp add: in_row_def good_def)

lemma append_effect:
  assumes "in_row i j"
  shows "tidy (publish (appendFile f) j)"
    and "progress (publish (appendFile f) j) = (progress j)\<lparr>generatedFiles := generatedFiles (progress j) @ [f]\<rparr>"
proof -
  show "progress (publish (appendFile f) j) = (progress j)\<lparr>generatedFiles := generatedFiles (progress j) @ [f]\<rparr>"
    by (simp add: publish_simps appendFile_def)
  have "good (appendFile f (progress j))"
    using assms by (simp add: in_row_def good_def appendFile_def)
  moreover have "current (progress j) \<le> current (appendFile f (progress j))"
    by (simp add: appendFile_def)
  ultimately show "tidy (publish (appendFile f) j)"
    using assms by (intro tidy_publish) (simp_all add: in_row_def)
qed

lemma catchRow_effect:
  assumes "in_row i j"
  shows "tidy (catchRow P i r e built j)"
    and "progress (catchRow P i r e built j)
         = (progress j)\<lparr>generatedFiles := generatedFiles (progress j)
              @ [\<lparr>filename = fileName P i r, filedata = placeholderFor P r built\<rparr>]\<rparr>"
    and "failures (catchRow P i r e built j) = failures j + 1"
proof -
  define j' where
    "j' = j\<lparr>failures := failures j + 1,
            firstErrorMessage :=
              (if firstErrorMessage j = []
               then lit ''Error on '' @ fileName P i r @ lit '': ''
                    @ (case e of Error m \<Rightarrow> m | NonError \<Rightarrow> lit ''An unknown error occurred.'')
               else firstErrorMessage j)\<rparr>"
  have c: "catchRow P i r e built j
           = publish (appendFile \<lparr>filename = fileName P i r, filedata = placeholderFor P r built\<rparr>) j'"
    by (simp add: catchRow_def Let_def j'_def placeholderFor_def)
  have r: "in_row i j'" using assms by (auto simp: in_row_def tidy_def j'_def)
  have p: "progress j' = progress j" "failures j' = failures j + 1" by (simp_all add: j'_def)
  show "tidy (catchRow P i r e built j)" unfolding c using r by (rule append_effect(1))
  show "progress (catchRow P i r e built j)
         = (progress j)\<lparr>generatedFiles := generatedFiles (progress j)
              @ [\<lparr>filename = fileName P i r, filedata = placeholderFor P r built\<rparr>]\<rparr>"
    unfolding c append_effect(2) [OF r] p by simp
  show "failures (catchRow P i r e built j) = failures j + 1"
    unfolding c by (simp add: publish_simps p)
qed

lemma processRow_effect:
  assumes "between_rows i j"
  shows "between_rows (i + 1) (processRow P S st n i r j)"
    and "generatedFiles (progress (processRow P S st n i r j))
         = generatedFiles (progress j) @ [rowFile P S st i r]"
    and "current (progress (processRow P S st n i r j)) = i"
    and "total (progress (processRow P S st n i r j)) = total (progress j)"
    and "failures (processRow P S st n i r j)
         = failures j + (if rowFails P S st i r then 1 else 0)"
proof -
  define start where
    "start = (\<lambda>prev::BatchProgress. prev\<lparr>current := i,
                 currentFileName := Some (lit ''Generating: '' @ fileName P i r)\<rparr>)"
  define j1 where "j1 = publish start j"
  define c where "c = rowCall P S st i r"
  define j1' where "j1' = relay P (observed c) j1"
  define j2 where
    "j2 = (if invalidRow r then
             catchRow P i r
               (Error (lit ''Row '' @ numberToString P (Fin (of_nat (i + 2)))
                       @ lit '': Invalid or missing data. Ensure prompt, width, and height are valid.''))
               [] j1
           else case settles c of
                  Fulfilled imageUrl \<Rightarrow>
                    publish (appendFile \<lparr>filename = fileName P i r, filedata = imageUrl\<rparr>) j1'
                | Rejected e \<Rightarrow> catchRow P i r e (batchPrompt P st r) j1')"
  have row: "processRow P S st n i r j = (if i < n - 1 then pause 2000 j2 else j2)"
    unfolding processRow_def Let_def j2_def j1'_def j1_def c_def rowCall_def start_def
    by (rule refl)
  have p1: "progress j1 = start (progress j)" "failures j1 = failures j"
    by (simp_all add: j1_def publish_simps)
  have g1: "good (start (progress j))"
    using assms by (simp add: between_rows_def good_def start_def)
  have "tidy j1"
    unfolding j1_def using assms g1
    by (intro tidy_publish) (simp_all add: between_rows_def start_def)
  then have r1: "in_row i j1"
    using assms by (simp add: in_row_def p1 start_def between_rows_def)
  from relay_effect [OF \<open>tidy j1\<close> in_row_good [OF r1], of P "observed c"]
  have t1': "tidy j1'" and sc: "same_counts (progress j1) (progress j1')"
    and f1': "failures j1' = failures j1"
    by (simp_all add: j1'_def)
  have r1': "in_row i j1'"
    using r1 t1' sc by (simp add: in_row_def same_counts_def)
  have gf1: "generatedFiles (progress j1) = generatedFiles (progress j)"
    "generatedFiles (progress j1') = generatedFiles (progress j)"
    "total (progress j1) = total (progress j)" "total (progress j1') = total (progress j)"
    "current (progress j1) = i" "current (progress j1') = i"
    "status (progress j1) = Processing" "status (progress j1') = Processing"
    using sc r1 by (simp_all add: p1 start_def same_counts_def in_row_def)
  have two: "tidy j2
      \<and> progress j2 = (progress (if invalidRow r then j1 else j1'))
            \<lparr>generatedFiles := generatedFiles (progress j) @ [rowFile P S st i r]\<rparr>
      \<and> failures j2 = failures j + (if rowFails P S st i r then 1 else 0)"
  proof (cases "invalidRow r")
    case True
    then show ?thesis
      using catchRow_effect [OF r1] gf1(1) p1(2)
      by (simp add: j2_def rowFile_def rowFails_def)
  next
    case False
    show ?thesis
    proof (cases "settles c")
      case (Fulfilled imageUrl)
      then show ?thesis
        using False append_effect [OF r1'] f1'
        by (simp add: j2_def rowFile_def rowFails_def gf1 p1 c_def publish_simps)
    next
      case (Rejected e)
      then show ?thesis
        using False catchRow_effect [OF r1'] f1'
        by (simp add: j2_def rowFile_def rowFails_def gf1 p1 c_def)
    qed
  qed
  have len: "length (generatedFiles (progress j)) = i"
    using assms by (simp add: between_rows_def)
  have pj2: "current (progress j2) = i" "status (progress j2) = Processing"
    "total (progress j2) = total (progress j)"
    "generatedFiles (progress j2) = generatedFiles (progress j) @ [rowFile P S st i r]"
    using two gf1 by (cases "invalidRow r"; simp)+
  have b2: "between_rows (i + 1) j2"
    using two pj2 len by (simp add: between_rows_def good_def)
  have fin: "progress (processRow P S st n i r j) = progress j2"
    "failures (processRow P S st n i r j) = failures j2"
    by (simp_all add: row pause_simps)
  show "between_rows (i + 1) (processRow P S st n i r j)"
    using b2 by (simp add: row between_rows_def tidy_pause pause_simps)
  show "generatedFiles (progress (processRow P S st n i r j))
         = generatedFiles (progress j) @ [rowFile P S st i r]"
    unfolding fin by (rule pj2)
  show "current (progress (processRow P S st n i r j)) = i"
    unfolding fin by (rule pj2)
  show "total (progress (processRow P S st n i r j)) = total (progress j)"
    unfolding fin by (rule pj2)
  show "failures (processRow P S st n i r j)
         = failures j + (if rowFails P S st i r then 1 else 0)"
    unfolding fin using two by simp
qed

lemma processRows_effect:
  assumes "between_rows i j"
  shows "between_rows (i + length rs) (processRows P S st n i rs j)
       \<and> generatedFiles (progress (processRows P S st n i rs j))
           = generatedFiles (progress j)
             @ map (\<lambda>(k, r). rowFile P S st k r) (zip [i ..< i + length rs] rs)
       \<and> total (progress (processRows P S st n i rs j)) = total (progress j)
       \<and> failures (processRows P S st n i rs j)
           = failures j
             + length (filter (\<lambda>(k, r). rowFails P S st k r) (zip [i ..< i + length rs] rs))"
  using assms
proof (induction rs arbitrary: i j)
  case Nil
  then show ?case by simp
next
  case (Cons r rs)
  note step = processRow_effect [OF Cons.prems, of P S st n r]
  have "[i ..< i + length (r # rs)] = i # [Suc i ..< i + length (r # rs)]"
    by (rule upt_conv_Cons) simp
  then have upt: "[i ..< i + length (r # rs)] = i # [i + 1 ..< (i + 1) + length rs]"
    by simp
  from Cons.IH [OF step(1)] step(2,4,5) show ?case
    unfolding upt by simp
qed

lemma failed_upload:
  assumes "invalid_upload file"
  shows "\<exists>reason. history (handleBatchFileUpload P S st previous file)
                   = [Publish parsing, Publish (failedState reason)]
               \<and> progress (handleBatchFileUpload P S st previous file) = failedState reason"
proof (cases "file")
  case (Parsed results)
  show ?thesis
  proof (cases "errors results")
    case Nil
    with assms Parsed have "data_rows results = []" by (simp add: invalid_upload_def)
    with Nil Parsed show ?thesis
      by (auto simp: handleBatchFileUpload_def Let_def publish_def parsing_def)
  next
    case (Cons e es)
    with Parsed show ?thesis
      by (auto simp: handleBatchFileUpload_def Let_def publish_def parsing_def)
  qed
qed (use assms in \<open>auto simp: invalid_upload_def handleBatchFileUpload_def Let_def publish_def parsing_def\<close>)

lemma tidy_failed: "tidy \<lparr>progress = failedState reason,
                          history = [Publish parsing, Publish (failedState reason)],
                          failures = f, firstErrorMessage = m\<rparr>"
  by (simp add: tidy_def good_def parsing_def failedState_def)

lemma valid_upload:
  fixes P S st previous results
  assumes "errors results = []" and "data_rows results \<noteq> []"
  defines "rows \<equiv> data_rows results"
  defines "j \<equiv> handleBatchFileUpload P S st previous (Parsed results)"
  shows "tidy j"
    and "generatedFiles (progress j) = map (\<lambda>(k, r). rowFile P S st k r) (numbered rows)"
    and "failures j = length (filter (\<lambda>(k, r). rowFails P S st k r) (numbered rows))"
    and "current (progress j) = length rows"
    and "total (progress j) = length rows"
    and "status (progress j) = (if failures j = 0 then Done else Failed)"
    and "last (history j) = Publish (progress j)"
proof -
  define j0 where
    "j0 = \<lparr>progress = previous, history = [], failures = 0, firstErrorMessage = []\<rparr>"
  define j1 where "j1 = publish (\<lambda>prev. parsing) j0"
  define j2 where
    "j2 = publish (\<lambda>prev. prev\<lparr>total := length rows,
                    currentFileName := Some (lit ''Starting generation...'')\<rparr>) j1"
  define jn where "jn = processRows P S st (length rows) 0 rows j2"
  have j: "j = complete P (length rows) jn"
    using assms(1,2)
    by (simp add: j_def handleBatchFileUpload_def Let_def rows_def jn_def j2_def j1_def j0_def
          parsing_def)
  have "tidy j1" by (simp add: j1_def j0_def publish_def tidy_def good_def parsing_def)
  moreover have p1: "progress j1 = parsing" by (simp add: j1_def publish_simps)
  ultimately have "tidy j2"
    unfolding j2_def by (intro tidy_publish) (simp_all add: good_def parsing_def)
  moreover have p2: "progress j2 = parsing\<lparr>total := length rows,
                       currentFileName := Some (lit ''Starting generation...'')\<rparr>"
    "failures j2 = 0"
    by (simp_all add: j2_def publish_simps p1 j1_def j0_def)
  ultimately have "between_rows 0 j2"
    by (simp add: between_rows_def good_def parsing_def)
  from processRows_effect [OF this, of rows P S st "length rows"]
  have bn: "between_rows (length rows) jn"
    and gn: "generatedFiles (progress jn) = map (\<lambda>(k, r). rowFile P S st k r) (numbered rows)"
    and tn: "total (progress jn) = length rows"
    and fn: "failures jn = length (filter (\<lambda>(k, r). rowFails P S st k r) (numbered rows))"
    by (simp_all add: jn_def p2 parsing_def numbered_def)
  define fin where
    "fin = (\<lambda>prev::BatchProgress.
              if failures jn > 0 then
                prev\<lparr>status := Failed,
                   errorText := Some (numberToString P (Fin (of_nat (failures jn))) @ lit '' of ''
                                      @ numberToString P (Fin (of_nat (length rows)))
                                      @ lit '' assets failed. First error: ''
                                      @ firstErrorMessage jn),
                   current := length rows,
                   currentFileName := Some (lit ''Completed with errors.'')\<rparr>
              else prev\<lparr>status := Done, current := length rows,
                     currentFileName := Some (lit ''Completed!'')\<rparr>)"
  have c: "j = publish fin jn"
    unfolding j by (simp add: complete_def fin_def)
  have len: "length (generatedFiles (progress jn)) = length rows"
    using bn by (simp add: between_rows_def)
  have gfin: "good (fin (progress jn))"
    using len tn by (simp add: good_def fin_def)
  show "tidy j"
    unfolding c using bn gfin
    by (intro tidy_publish) (simp_all add: between_rows_def fin_def)
  show "generatedFiles (progress j) = map (\<lambda>(k, r). rowFile P S st k r) (numbered rows)"
    unfolding c by (simp add: publish_simps fin_def gn)
  show "failures j = length (filter (\<lambda>(k, r). rowFails P S st k r) (numbered rows))"
    unfolding c by (simp add: publish_simps fn)
  show "current (progress j) = length rows"
    unfolding c by (simp add: publish_simps fin_def)
  show "total (progress j) = length rows"
    unfolding c by (simp add: publish_simps fin_def tn)
  show "status (progress j) = (if failures j = 0 then Done else Failed)"
    unfolding c by (simp add: publish_simps fin_def)
  show "last (history j) = Publish (progress j)"
    unfolding c by (simp add: publish_simps)
qed

lemma tidy_handleBatchFileUpload: "tidy (handleBatchFileUpload P S st previous file)"
proof (cases "invalid_upload file")
  case True
  from failed_upload [OF this, of P S st previous] obtain reason where
    "history (handleBatchFileUpload P S st previous file)
       = [Publish parsing, Publish (failedState reason)]"
    "progress (handleBatchFileUpload P S st previous file) = failedState reason" by blast
  then show ?thesis by (simp add: tidy_def good_def parsing_def failedState_def)
next
  case False
  show ?thesis
  proof (cases "file")
    case NoFile
    then show ?thesis by (simp add: handleBatchFileUpload_def Let_def tidy_def)
  next
    case (Parsed results)
    with False have "errors results = []" "data_rows results \<noteq> []"
      by (simp_all add: invalid_upload_def)
    then show ?thesis unfolding Parsed by (rule valid_upload(1))
  qed (use False in \<open>simp_all add: invalid_upload_def\<close>)
qed

text \<open>
  Claim C2, as amended. In every state a batch job publishes, \<open>generatedFiles\<close> holds
  \<open>current\<close> or \<open>current + 1\<close> entries (the row in hand has its file before \<open>current\<close>
  moves on to the next row); \<open>current\<close> never decreases from one published state to the
  next; and in a state whose status is \<open>done\<close> or \<open>error\<close> the number of files,
  \<open>current\<close> and \<open>total\<close> are equal.
\<close>
theorem batch_progress_invariant:
  "let published = states (history (handleBatchFileUpload P S st previous file))
   in (\<forall>s\<in>set published.
         current s \<le> length (generatedFiles s) \<and> length (generatedFiles s) \<le> current s + 1)
      \<and> sorted (map current published)
      \<and> (\<forall>s\<in>set published.
            status s = Done \<or> status s = Failed \<longrightarrow>
            length (generatedFiles s) = current s \<and> current s = total s)"
  using tidy_handleBatchFileUpload [of P S st previous "file"]
  unfolding Let_def tidy_def good_def by auto

lemma example_job_value:
  "example_job =
     \<lparr>progress =
        \<lparr>total = 2, current = 2, status = Failed,
         generatedFiles =
           [\<lparr>filename = lit ''hero.png'', filedata = lit ''data:image/png;base64,BBBB''\<rparr>,
            \<lparr>filename = lit ''villain.png'', filedata = lit ''data:image/png;base64,''\<rparr>],
         currentFileName = Some (lit ''Completed with errors.''),
         errorText = Some (lit ''1 of 2 assets failed. First error: Error on villain.png: Row 3: Invalid or missing data. Ensure prompt, width, and height are valid.'')\<rparr>,
      history =
        [Publish parsing,
         Publish (parsing\<lparr>total := 2, currentFileName := Some (lit ''Starting generation...'')\<rparr>),
         Publish (parsing\<lparr>total := 2, currentFileName := Some (lit ''Generating: hero.png'')\<rparr>),
         Publish \<lparr>total = 2, current = 0, status = Processing,
            generatedFiles =
              [\<lparr>filename = lit ''hero.png'', filedata = lit ''data:image/png;base64,BBBB''\<rparr>],
            currentFileName = Some (lit ''Generating: hero.png''), errorText = None\<rparr>,
         Wait 2000,
         Publish \<lparr>total = 2, current = 1, status = Processing,
            generatedFiles =
              [\<lparr>filename = lit ''hero.png'', filedata = lit ''data:image/png;base64,BBBB''\<rparr>],
            currentFileName = Some (lit ''Generating: villain.png''), errorText = None\<rparr>,
         Publish \<lparr>total = 2, current = 1, status = Processing,
            generatedFiles =
              [\<lparr>filename = lit ''hero.png'', filedata = lit ''data:image/png;base64,BBBB''\<rparr>,
               \<lparr>filename = lit ''villain.png'', filedata = lit ''data:image/png;base64,''\<rparr>],
            currentFileName = Some (lit ''Generating: villain.png''), errorText = None\<rparr>,
         Publish \<lparr>total = 2, current = 2, status = Failed,
            generatedFiles =
              [\<lparr>filename = lit ''hero.png'', filedata = lit ''data:image/png;base64,BBBB''\<rparr>,
               \<lparr>filename = lit ''villain.png'', filedata = lit ''data:image/png;base64,''\<rparr>],
            currentFileName = Some (lit ''Completed with errors.''),
            errorText = Some (lit ''1 of 2 assets failed. First error: Error on villain.png: Row 3: Invalid or missing data. Ensure prompt, width, and height are valid.'')\<rparr>],
      failures = 1,
      firstErrorMessage = lit ''Error on villain.png: Row 3: Invalid or missing data. Ensure prompt, width, and height are valid.''\<rparr>"
  by code_simp

lemma example_job_final:
  "progress example_job \<in> set (states (history example_job))
   \<and> status (progress example_job) = Failed"
  unfolding example_job_value by simp

text \<open>The amended claim C2 at the last state of the job over the two example rows.\<close>
theorem batch_progress_invariant_witness:
  "progress example_job \<in> set (states (history example_job))
   \<and> (status (progress example_job) = Done \<or> status (progress example_job) = Failed)
   \<and> length (generatedFiles (progress example_job)) = current (progress example_job)
   \<and> current (progress example_job) = total (progress example_job)"
  using batch_progress_invariant [of example_browser example_services example_panel
      initialBatchProgress "Parsed \<lparr>data = two_rows, errors = []\<rparr>"] example_job_final
  unfolding Let_def example_job_def by blast

text \<open>
  Claim C2 as stated fails after the first of two rows: the state published when the file
  of row 0 is appended has \<open>current = 0\<close> and one file, and it stands for the pause of
  2000 that follows.
\<close>
theorem batch_progress_length_counterexample:
  "history example_job ! 3
     = Publish \<lparr>total = 2, current = 0, status = Processing,
         generatedFiles = [\<lparr>filename = lit ''hero.png'',
                            filedata = lit ''data:image/png;base64,BBBB''\<rparr>],
         currentFileName = Some (lit ''Generating: hero.png''), errorText = None\<rparr>
   \<and> history example_job ! 4 = Wait 2000
   \<and> length (generatedFiles (states (history example_job) ! 3))
       \<noteq> current (states (history example_job) ! 3)"
  unfolding example_job_value by simp

text \<open>
  Claim C3, as amended. When the file cannot be read or parsed, or has no data row, the
  job publishes two states: the one labelled \<open>Parsing CSV...\<close>, whose status is
  \<open>processing\<close>, and then an \<open>error\<close> state with a reason. In both \<open>total\<close> and
  \<open>current\<close> are 0 and there is no file: \<open>total\<close> is never set and no row is processed.
\<close>
theorem invalid_upload_course:
  "invalid_upload file \<longrightarrow>
     (\<exists>reason. history (handleBatchFileUpload P S st previous file)
                 = [Publish parsing, Publish (failedState reason)])
     \<and> map status (states (history (handleBatchFileUpload P S st previous file)))
         = [Processing, Failed]
     \<and> (\<forall>s\<in>set (states (history (handleBatchFileUpload P S st previous file))).
           total s = 0 \<and> current s = 0 \<and> generatedFiles s = [])"
proof
  assume "invalid_upload file"
  from failed_upload [OF this, of P S st previous] obtain reason where
    h: "history (handleBatchFileUpload P S st previous file)
          = [Publish parsing, Publish (failedState reason)]" by blast
  have "map status (states [Publish parsing, Publish (failedState reason)]) = [Processing, Failed]"
    "\<forall>s\<in>set (states [Publish parsing, Publish (failedState reason)]).
        total s = 0 \<and> current s = 0 \<and> generatedFiles s = []"
    by (simp_all add: parsing_def failedState_def)
  with h show "(\<exists>reason. history (handleBatchFileUpload P S st previous file)
                 = [Publish parsing, Publish (failedState reason)])
     \<and> map status (states (history (handleBatchFileUpload P S st previous file)))
         = [Processing, Failed]
     \<and> (\<forall>s\<in>set (states (history (handleBatchFileUpload P S st previous file))).
           total s = 0 \<and> current s = 0 \<and> generatedFiles s = [])"
    by (metis (no_types, lifting))
qed

text \<open>The amended claim C3 for a file that cannot be read.\<close>
theorem invalid_upload_course_witness:
  "invalid_upload ReadError
   \<and> map status (states (history (handleBatchFileUpload example_browser example_services
                                    example_panel initialBatchProgress ReadError)))
       = [Processing, Failed]"
proof -
  have "invalid_upload ReadError" by (simp add: invalid_upload_def)
  then show ?thesis
    using invalid_upload_course [of ReadError example_browser example_services example_panel
        initialBatchProgress]
    by blast
qed

text \<open>
  Claim C3 as stated fails for a table without rows: the first state published, which
  stands while the file is read and parsed, has the status \<open>processing\<close>.
\<close>
theorem invalid_upload_processing_counterexample:
  "invalid_upload (Parsed \<lparr>data = [], errors = []\<rparr>)
   \<and> history empty_job ! 0 = Publish parsing
   \<and> status parsing = Processing"
  by code_simp



lemma rowCall_public:
  assumes "engine st = public"
  shows "rowCall P S st i r
         = generateWithPublicModel P (publicTransport S i) (batchPrompt P st r)
             (parseInt (widthStr r)) (parseInt (heightStr r)) (Some batchObserver)"
  using assms by (simp add: rowCall_def generateFunc_def)

lemma public_row:
  fixes P S st i r
  defines "answer \<equiv> publicTransport S i
                       \<lparr>req_prompt = batchPrompt P st r, req_width = parseInt (widthStr r),
                        req_height = parseInt (heightStr r),
                        req_seed = stringToSeed (batchPrompt P st r)\<rparr>"
  assumes "engine st = public" and "\<not> invalidRow r"
  shows "(\<forall>k. Attempt k \<in> set (observed (rowCall P S st i r)) \<longrightarrow> \<not> succeeds (answer k)) \<longrightarrow>
           \<not> rowFails P S st i r
           \<and> filedata (rowFile P S st i r)
             = generatePlaceholder P (batchPrompt P st r) (parseInt (widthStr r))
                 (parseInt (heightStr r))"
    and "\<forall>k resp. Attempt k \<in> set (observed (rowCall P S st i r)) \<and> answer k = Responds resp
                \<and> succeeds (answer k)
           \<longrightarrow> settles (rowCall P S st i r) = read_blob (blob_read resp)"
proof -
  note c = rowCall_public [OF assms(2), of P S i r]
  note s = generateWithPublicModel_settles [of P "publicTransport S i" "batchPrompt P st r"
      "parseInt (widthStr r)" "parseInt (heightStr r)" "Some batchObserver",
      folded c answer_def]
  have quiet: "\<not> thrown_by (Some batchObserver) e" for e
    using never_throws_batchObserver never_throws_simps(3) by blast
  show "(\<forall>k. Attempt k \<in> set (observed (rowCall P S st i r)) \<longrightarrow> \<not> succeeds (answer k)) \<longrightarrow>
           \<not> rowFails P S st i r
           \<and> filedata (rowFile P S st i r)
             = generatePlaceholder P (batchPrompt P st r) (parseInt (widthStr r))
                 (parseInt (heightStr r))"
  proof
    assume "\<forall>k. Attempt k \<in> set (observed (rowCall P S st i r)) \<longrightarrow> \<not> succeeds (answer k)"
    with s(2) quiet have "settles (rowCall P S st i r)
        = Fulfilled (generatePlaceholder P (batchPrompt P st r) (parseInt (widthStr r))
                       (parseInt (heightStr r)))"
      by blast
    then show "\<not> rowFails P S st i r
           \<and> filedata (rowFile P S st i r)
             = generatePlaceholder P (batchPrompt P st r) (parseInt (widthStr r))
                 (parseInt (heightStr r))"
      using assms(3) by (simp add: rowFails_def rowFile_def)
  qed
  show "\<forall>k resp. Attempt k \<in> set (observed (rowCall P S st i r)) \<and> answer k = Responds resp
                \<and> succeeds (answer k)
           \<longrightarrow> settles (rowCall P S st i r) = read_blob (blob_read resp)"
    by (rule s(1))
qed

text \<open>
  Claim C4, as amended. For a parsed table without errors and with \<open>N > 0\<close> data rows,
  the job ends with \<open>N\<close> files, \<open>current = N\<close> and \<open>total = N\<close>. The files are those
  of the rows in order, one for each: the image when the row is valid and its call is
  fulfilled, a placeholder when the row is invalid or its call is rejected. The failure
  counter counts the invalid and the rejected rows, and the last state published is
  \<open>done\<close> when it is 0 and \<open>error\<close> otherwise. With the public engine a valid row none
  of whose attempts succeeds is not counted as a failure: its call is fulfilled with the
  placeholder that \<open>generateWithPublicModel\<close> draws itself, which is the file of the row;
  and the call of a row with an attempt that succeeds settles as the reading of that
  response's blob does.
\<close>
theorem batch_completes:
  "errors results = [] \<and> data_rows results \<noteq> [] \<longrightarrow>
     (let j = handleBatchFileUpload P S st previous (Parsed results);
          rows = data_rows results;
          final = progress j
      in length (generatedFiles final) = length rows
         \<and> current final = length rows \<and> total final = length rows
         \<and> generatedFiles final = map (\<lambda>(i, r). rowFile P S st i r) (numbered rows)
         \<and> failures j = length (filter (\<lambda>(i, r). rowFails P S st i r) (numbered rows))
         \<and> status final = (if failures j = 0 then Done else Failed)
         \<and> last (history j) = Publish final
         \<and> (\<forall>i r. engine st = public \<and> \<not> invalidRow r \<longrightarrow>
               (let c = rowCall P S st i r;
                    answer = publicTransport S i
                               \<lparr>req_prompt = batchPrompt P st r,
                                req_width = parseInt (widthStr r),
                                req_height = parseInt (heightStr r),
                                req_seed = stringToSeed (batchPrompt P st r)\<rparr>
                in ((\<forall>k. Attempt k \<in> set (observed c) \<longrightarrow> \<not> succeeds (answer k)) \<longrightarrow>
                      \<not> rowFails P S st i r
                      \<and> filedata (rowFile P S st i r)
                        = generatePlaceholder P (batchPrompt P st r) (parseInt (widthStr r))
                            (parseInt (heightStr r)))
                   \<and> (\<forall>k resp. Attempt k \<in> set (observed c) \<and> answer k = Responds resp
                           \<and> succeeds (answer k)
                         \<longrightarrow> settles c = read_blob (blob_read resp)))))"
proof
  assume a: "errors results = [] \<and> data_rows results \<noteq> []"
  then have e: "errors results = []" and d: "data_rows results \<noteq> []" by simp_all
  note v = valid_upload [OF e d, of P S st previous]
  have len: "length (generatedFiles (progress (handleBatchFileUpload P S st previous (Parsed results))))
        = length (data_rows results)"
    unfolding v(2) by (simp add: numbered_def)
  have pub: "let c = rowCall P S st i r;
                 answer = publicTransport S i
                            \<lparr>req_prompt = batchPrompt P st r,
                             req_width = parseInt (widthStr r),
                             req_height = parseInt (heightStr r),
                             req_seed = stringToSeed (batchPrompt P st r)\<rparr>
             in ((\<forall>k. Attempt k \<in> set (observed c) \<longrightarrow> \<not> succeeds (answer k)) \<longrightarrow>
                   \<not> rowFails P S st i r
                   \<and> filedata (rowFile P S st i r)
                     = generatePlaceholder P (batchPrompt P st r) (parseInt (widthStr r))
                         (parseInt (heightStr r)))
                \<and> (\<forall>k resp. Attempt k \<in> set (observed c) \<and> answer k = Responds resp
                        \<and> succeeds (answer k)
                      \<longrightarrow> settles c = read_blob (blob_read resp))"
    if "engine st = public \<and> \<not> invalidRow r" for i r
    unfolding Let_def using public_row [of st r P S i] that by blast
  from len v(3-7) v(2) pub
  show "let j = handleBatchFileUpload P S st previous (Parsed results);
          rows = data_rows results;
          final = progress j
      in length (generatedFiles final) = length rows
         \<and> current final = length rows \<and> total final = length rows
         \<and> generatedFiles final = map (\<lambda>(i, r). rowFile P S st i r) (numbered rows)
         \<and> failures j = length (filter (\<lambda>(i, r). rowFails P S st i r) (numbered rows))
         \<and> status final = (if failures j = 0 then Done else Failed)
         \<and> last (history j) = Publish final
         \<and> (\<forall>i r. engine st = public \<and> \<not> invalidRow r \<longrightarrow>
               (let c = rowCall P S st i r;
                    answer = publicTransport S i
                               \<lparr>req_prompt = batchPrompt P st r,
                                req_width = parseInt (widthStr r),
                                req_height = parseInt (heightStr r),
                                req_seed = stringToSeed (batchPrompt P st r)\<rparr>
                in ((\<forall>k. Attempt k \<in> set (observed c) \<longrightarrow> \<not> succeeds (answer k)) \<longrightarrow>
                      \<not> rowFails P S st i r
                      \<and> filedata (rowFile P S st i r)
                        = generatePlaceholder P (batchPrompt P st r) (parseInt (widthStr r))
                            (parseInt (heightStr r)))
                   \<and> (\<forall>k resp. Attempt k \<in> set (observed c) \<and> answer k = Responds resp
                           \<and> succeeds (answer k)
                         \<longrightarrow> settles c = read_blob (blob_read resp))))"
    unfolding Let_def by (intro conjI allI impI) (simp_all only:, blast+)
qed

lemma two_rows_data: "data_rows \<lparr>data = two_rows, errors = []\<rparr> = two_rows"
  by code_simp

text \<open>The amended claim C4 for the two example rows.\<close>
theorem batch_completes_witness:
  "errors \<lparr>data = two_rows, errors = []\<rparr> = []
   \<and> data_rows \<lparr>data = two_rows, errors = []\<rparr> \<noteq> []
   \<and> length (generatedFiles (progress example_job)) = 2
   \<and> current (progress example_job) = 2 \<and> total (progress example_job) = 2"
proof -
  have h: "errors \<lparr>data = two_rows, errors = []\<rparr> = []
           \<and> data_rows \<lparr>data = two_rows, errors = []\<rparr> \<noteq> []"
    by (simp add: two_rows_data) (simp add: two_rows_def)
  have n: "length (data_rows \<lparr>data = two_rows, errors = []\<rparr>) = 2"
    by (simp add: two_rows_data) (simp add: two_rows_def)
  have "length (generatedFiles (progress example_job))
          = length (data_rows \<lparr>data = two_rows, errors = []\<rparr>)
        \<and> current (progress example_job) = length (data_rows \<lparr>data = two_rows, errors = []\<rparr>)
        \<and> total (progress example_job) = length (data_rows \<lparr>data = two_rows, errors = []\<rparr>)"
    using batch_completes [of "\<lparr>data = two_rows, errors = []\<rparr>" example_browser
        example_services example_panel initialBatchProgress] h
    unfolding Let_def example_job_def by blast
  with h n show ?thesis by simp
qed

lemma hero_row:
  "data_rows \<lparr>data = [hd two_rows], errors = []\<rparr> = [hd two_rows]"
  "\<not> invalidRow (hd two_rows)"
  "fileName example_browser 0 (hd two_rows) = lit ''hero.png''"
  by code_simp+

lemma example_placeholder:
  "generatePlaceholder example_browser p w h = lit ''data:image/png;base64,''"
  by (simp add: generatePlaceholder_def example_browser_def Let_def)

lemma hero_call:
  "observed (rowCall example_browser example_services (example_panel\<lparr>engine := public\<rparr>) 0
               (hd two_rows))
     = [Attempt 1, OnRetry 1 2000, Sleep 2000, Attempt 2, OnRetry 2 4000, Sleep 4000, Attempt 3]"
  "settles (rowCall example_browser example_services (example_panel\<lparr>engine := public\<rparr>) 0
              (hd two_rows))
     = Fulfilled (lit ''data:image/png;base64,'')"
proof -
  have p: "engine (example_panel\<lparr>engine := public\<rparr>) = public" by simp
  have t: "publicTransport example_services 0 = always_status 500"
    by (simp add: example_services_def)
  show "observed (rowCall example_browser example_services (example_panel\<lparr>engine := public\<rparr>) 0
               (hd two_rows))
     = [Attempt 1, OnRetry 1 2000, Sleep 2000, Attempt 2, OnRetry 2 4000, Sleep 4000, Attempt 3]"
    unfolding rowCall_public [OF p] t generateWithPublicModel_def Let_def always_500_batchObserver
    by simp
  show "settles (rowCall example_browser example_services (example_panel\<lparr>engine := public\<rparr>) 0
              (hd two_rows))
     = Fulfilled (lit ''data:image/png;base64,'')"
    unfolding rowCall_public [OF p] t generateWithPublicModel_def Let_def always_500_batchObserver
    by (simp add: example_placeholder)
qed

text \<open>
  Claim C4 as stated fails for the public engine, which here always answers 500. The
  one row of the job is valid and its three attempts are used up, so the retries of the
  row are exhausted; yet the failure counter stays at 0 and the job ends \<open>done\<close>, the
  file of the row being the placeholder that \<open>generateWithPublicModel\<close> resolved with.
\<close>
theorem batch_exhausted_counterexample:
  "observed (rowCall example_browser example_services (example_panel\<lparr>engine := public\<rparr>) 0
               (hd two_rows))
     = [Attempt 1, OnRetry 1 2000, Sleep 2000, Attempt 2, OnRetry 2 4000, Sleep 4000, Attempt 3]
   \<and> failures public_job = 0
   \<and> status (progress public_job) = Done
   \<and> generatedFiles (progress public_job)
       = [\<lparr>filename = lit ''hero.png'', filedata = lit ''data:image/png;base64,''\<rparr>]"
proof -
  let ?st = "example_panel\<lparr>engine := public\<rparr>"
  let ?results = "\<lparr>data = [hd two_rows], errors = []\<rparr>"
  have e: "errors ?results = []" by simp
  have d: "data_rows ?results \<noteq> []" by (simp add: hero_row(1))
  note v = valid_upload [OF e d, of example_browser example_services ?st initialBatchProgress,
      folded public_job_def, unfolded hero_row(1)]
  have n: "numbered [hd two_rows] = [(0, hd two_rows)]" by (simp add: numbered_def)
  have fails: "\<not> rowFails example_browser example_services ?st 0 (hd two_rows)"
    by (simp add: rowFails_def hero_row(2) hero_call(2))
  have hero: "rowFile example_browser example_services ?st 0 (hd two_rows)
              = \<lparr>filename = lit ''hero.png'', filedata = lit ''data:image/png;base64,''\<rparr>"
    by (simp add: rowFile_def hero_row(2,3) hero_call(2))
  have f0: "failures public_job = 0" unfolding v(3) n using fails by simp
  have "status (progress public_job) = Done" unfolding v(6) f0 by simp
  moreover have "generatedFiles (progress public_job)
       = [\<lparr>filename = lit ''hero.png'', filedata = lit ''data:image/png;base64,''\<rparr>]"
    unfolding v(2) n using hero by simp
  ultimately show ?thesis using f0 hero_call(1) by blast
qed


subsection \<open>A single request\<close>










end
